theory Spec2Isabelle
  imports Complex_Main "HOL-Library.AList"
begin

section \<open>The audio engine (utils/audio.ts)\<close>

text \<open>
  JavaScript numbers are modelled as \<^typ>\<open>real\<close> (pad and take identifiers and
  millisecond clock readings, which are integers in the program, as \<^typ>\<open>int\<close>).
  An optional field or argument is an \<^typ>\<open>'a option\<close>, \<open>undefined\<close> being \<open>None\<close>.
\<close>

datatype InstrumentType =
    kick | kick_808 | snare | snare_808 | rimshot | hihat_closed | hihat_open
  | tom | crash | splash | china | ride | cowbell | clap | shaker | tambourine
  | conga_high | conga_low | custom

datatype js_error = TypeError | RangeError

record SoundParams =
  p_pitch :: "real option"
  p_volume :: "real option"
  p_pan :: "real option"
  p_triggerNote :: "int option"
  p_time :: "real option"

text \<open>The parameter object \<open>{}\<close>: every field undefined.\<close>

definition no_params :: SoundParams where
  "no_params = \<lparr>p_pitch = None, p_volume = None, p_pan = None, p_triggerNote = None,
     p_time = None\<rparr>"

text \<open>
  A \<open>Tone.Player\<close> created by \<open>loadUserSample\<close> is an object with identity: the store
  \<open>players\<close> holds every player created so far, a handle is its index.
\<close>

record player =
  pl_loaded :: bool
  pl_disposed :: bool

record midi_note =
  n_name :: string
  n_duration :: real
  n_time :: real
  n_velocity :: real

text \<open>A parsed \<open>Midi\<close> object: its tracks, each a list of notes.\<close>

type_synonym Midi = "midi_note list list"

text \<open>
  The module-level variables. The voices (\<open>defaultKit\<close> and the synths) are all created
  in the last synchronous stretch of \<open>initAudio\<close>, which ends with
  \<open>isInitialized = true\<close>: they exist exactly when \<open>isInitialized\<close> holds.
\<close>

record engine =
  isInitialized :: bool
  customPlayers :: "int \<rightharpoonup> nat"
  customMidi :: "int \<rightharpoonup> Midi"
  panners :: "string \<rightharpoonup> real"
  players :: "player list"

definition engine0 :: engine where
  "engine0 = \<lparr>isInitialized = False, customPlayers = Map.empty, customMidi = Map.empty,
     panners = Map.empty, players = []\<rparr>"

text \<open>
  \<open>initAudio\<close>, when it has run to its end: \<open>toFX\<close> registers one panner, at pan 0, for
  each synth. The players of the default kit are connected to the reverb directly and
  have no panner.
\<close>

definition initAudio :: "engine \<Rightarrow> engine" where
  "initAudio e =
     (if isInitialized e then e
      else e\<lparr>panners := (panners e)(''tom'' \<mapsto> 0, ''crash'' \<mapsto> 0, ''splash'' \<mapsto> 0,
                 ''china'' \<mapsto> 0, ''ride'' \<mapsto> 0, ''cowbell'' \<mapsto> 0, ''shaker'' \<mapsto> 0,
                 ''conga'' \<mapsto> 0),
             isInitialized := True\<rparr>)"

text \<open>
  A panner is an object of the audio library (Tone.js), which is not part of this
  repository. Assigning to its \<open>pan.value\<close> runs the setter of the library's parameter,
  which checks the value against the range of the parameter, from -1 to 1 for a pan: a
  value outside the range throws a RangeError and leaves the parameter as it was.
\<close>

definition set_pan_value :: "real \<Rightarrow> js_error + real" where
  "set_pan_value v = (if - 1 \<le> v \<and> v \<le> 1 then Inr v else Inl RangeError)"

text \<open>
  \<open>panners\<close> is a plain object, so \<open>panners[name]\<close> also finds the properties every
  object inherits: a function, or the prototype itself. Each is truthy and has no \<open>pan\<close>.
\<close>

definition object_prototype_names :: "string list" where
  "object_prototype_names =
     [''constructor'', ''hasOwnProperty'', ''isPrototypeOf'', ''propertyIsEnumerable'',
      ''toLocaleString'', ''toString'', ''valueOf'', ''__proto__'', ''__defineGetter__'',
      ''__defineSetter__'', ''__lookupGetter__'', ''__lookupSetter__'']"

text \<open>
  \<open>updatePan\<close>: \<open>if (panners[name]) panners[name].pan.value = value\<close>. The value goes to
  the setter as it is given. For an inherited name the test passes and the assignment to
  \<open>value\<close> of the missing \<open>pan\<close> throws a TypeError; for any other name that is not a
  panner's the call does nothing.
\<close>

definition updatePan :: "engine \<Rightarrow> string \<Rightarrow> real \<Rightarrow> js_error + engine" where
  "updatePan e name v =
     (case panners e name of
        Some _ \<Rightarrow>
          (case set_pan_value v of
             Inl err \<Rightarrow> Inl err
           | Inr v' \<Rightarrow> Inr (e\<lparr>panners := (panners e)(name \<mapsto> v')\<rparr>))
      | None \<Rightarrow> (if name \<in> set object_prototype_names then Inl TypeError else Inr e))"

subsection \<open>triggerSound\<close>

text \<open>\<open>const vel = velocity > 1 ? Math.min(Math.max(velocity / 127, 0.1), 1) : velocity\<close>\<close>

definition vel_of :: "real \<Rightarrow> real" where
  "vel_of velocity = (if velocity > 1 then min (max (velocity / 127) (1 / 10)) 1 else velocity)"

definition volMult :: "SoundParams \<Rightarrow> real" where
  "volMult params = (case p_volume params of Some v \<Rightarrow> v | None \<Rightarrow> 1)"

text \<open>\<open>const effectiveVel = Math.max(vel * volMult, 0.001)\<close>\<close>

definition effectiveVel :: "real \<Rightarrow> SoundParams \<Rightarrow> real" where
  "effectiveVel velocity params = max (vel_of velocity * volMult params) (1 / 1000)"

definition intervalToFrequencyRatio :: "real \<Rightarrow> real" where
  "intervalToFrequencyRatio i = 2 powr (i / 12)"

text \<open>\<open>params.pitch ? f(params.pitch) : d\<close>: an undefined pitch and the pitch 0 are falsy.\<close>

definition pitch_or :: "SoundParams \<Rightarrow> (real \<Rightarrow> 'a) \<Rightarrow> 'a \<Rightarrow> 'a" where
  "pitch_or params f d =
     (case p_pitch params of Some x \<Rightarrow> (if x \<noteq> 0 then f x else d) | None \<Rightarrow> d)"

definition pbRate :: "SoundParams \<Rightarrow> real" where
  "pbRate params = pitch_or params intervalToFrequencyRatio 1"

text \<open>
  A note handed to a synth: a name as written, or
  \<open>Tone.Frequency(name).transpose(semitones).toNote()\<close>.
\<close>

datatype note_spec = NoteName string | Transposed string real

definition transposeNote :: "string \<Rightarrow> SoundParams \<Rightarrow> note_spec" where
  "transposeNote base params = pitch_or params (Transposed base) (NoteName base)"

text \<open>
  What a call asks of the audio library, in the order of the calls.
  \<^item> \<open>KitPlay name rate time fadeOut duration gain\<close>: on the player \<open>name\<close> of the
    default kit, \<open>playbackRate = rate\<close>, then inside \<open>try\<close>: stop at \<open>time\<close> if the
    player is started, \<open>fadeOut\<close> set if given, \<open>start(time, 0, duration)\<close>, and
    \<open>volume.value = gainToDb(gain)\<close>; what these throw is caught and dropped.
  \<^item> \<open>CustomPlay h rate time gain\<close>: the same on the custom player \<open>h\<close>, with no stop.
  \<^item> \<open>SynthTrigger synth note duration time velocity\<close>: \<open>triggerAttackRelease\<close>.
  \<^item> \<open>NoiseTrigger duration time velocity\<close>: \<open>triggerAttackRelease\<close> of the noise synth.
  \<^item> \<open>MidiTrigger note duration time velocity\<close>: \<open>triggerAttackRelease\<close> of \<open>midiSynth\<close>.
  \<^item> \<open>Warn key\<close>: the console warning that the custom sound is not loaded.
\<close>

datatype action =
    KitPlay string real "real option" "real option" "real option" real
  | CustomPlay nat real "real option" real
  | SynthTrigger string note_spec string "real option" real
  | NoiseTrigger string "real option" real
  | MidiTrigger note_spec real real real
  | Warn int

text \<open>The gain or velocity argument of a request; a warning has none.\<close>

fun gain_of :: "action \<Rightarrow> real option" where
  "gain_of (KitPlay name rate time fade dur g) = Some g"
| "gain_of (CustomPlay h rate time g) = Some g"
| "gain_of (SynthTrigger synth note dur time g) = Some g"
| "gain_of (NoiseTrigger dur time g) = Some g"
| "gain_of (MidiTrigger note dur time g) = Some g"
| "gain_of (Warn key) = None"

text \<open>
  The fixed factor by which a voice scales \<open>effectiveVel\<close>: 0.8 for the ride, 0.5 for the
  shaker, 0.7 for the tambourine, and none (that is, 1) for the others.
\<close>

definition voice_factor :: "InstrumentType \<Rightarrow> real" where
  "voice_factor ty =
     (if ty = ride then 8 / 10 else if ty = shaker then 5 / 10
      else if ty = tambourine then 7 / 10 else 1)"

text \<open>
  \<open>if (defaultKit.has(name)) { ... }\<close>: before \<open>initAudio\<close> has finished \<open>defaultKit\<close>
  is undefined and the test throws a TypeError; afterwards the kit has each of its seven
  names.
\<close>

definition kitPlay ::
  "engine \<Rightarrow> string \<Rightarrow> real \<Rightarrow> SoundParams \<Rightarrow> real option \<Rightarrow> real option
     \<Rightarrow> js_error + action list" where
  "kitPlay e name velocity params fade dur =
     (if isInitialized e
      then Inr [KitPlay name (pbRate params) (p_time params) fade dur (effectiveVel velocity params)]
      else Inl TypeError)"

text \<open>\<open>if (synth) synth.triggerAttackRelease(...)\<close>: nothing while the synth is undefined.\<close>

definition whenSynth :: "engine \<Rightarrow> action \<Rightarrow> js_error + action list" where
  "whenSynth e a = (if isInitialized e then Inr [a] else Inr [])"

definition player_loaded :: "engine \<Rightarrow> nat \<Rightarrow> bool" where
  "player_loaded e h = (h < length (players e) \<and> pl_loaded (players e ! h))"

text \<open>
  The \<open>case 'custom'\<close> of the switch. \<open>tnow\<close> is the reading of \<open>Tone.now()\<close>.
  \<open>midiSynth\<close> is undefined before \<open>initAudio\<close> has finished, so the first note of a
  pattern throws then.
\<close>

definition triggerCustom ::
  "engine \<Rightarrow> real \<Rightarrow> real \<Rightarrow> SoundParams \<Rightarrow> js_error + action list" where
  "triggerCustom e tnow velocity params =
     (case p_triggerNote params of
        None \<Rightarrow> Inr []
      | Some key \<Rightarrow>
          (case customMidi e key of
             Some midi \<Rightarrow>
               (let now = (case p_time params of Some t \<Rightarrow> t | None \<Rightarrow> tnow) in
                if concat midi = [] then Inr []
                else if \<not> isInitialized e then Inl TypeError
                else Inr (map (\<lambda>n. MidiTrigger (transposeNote (n_name n) params) (n_duration n)
                                     (now + n_time n) (n_velocity n * vel_of velocity))
                            (concat midi)))
           | None \<Rightarrow>
               (case customPlayers e key of
                  Some h \<Rightarrow>
                    (if player_loaded e h
                     then Inr [CustomPlay h (pbRate params) (p_time params)
                                 (effectiveVel velocity params)]
                     else Inr [Warn key])
                | None \<Rightarrow> Inr [])))"

fun triggerSound ::
  "engine \<Rightarrow> real \<Rightarrow> InstrumentType \<Rightarrow> real \<Rightarrow> SoundParams \<Rightarrow> js_error + action list" where
  "triggerSound e tnow custom velocity params = triggerCustom e tnow velocity params"
| "triggerSound e tnow kick velocity params = kitPlay e ''kick'' velocity params None None"
| "triggerSound e tnow kick_808 velocity params = kitPlay e ''kick_808'' velocity params None None"
| "triggerSound e tnow snare velocity params = kitPlay e ''snare'' velocity params None None"
| "triggerSound e tnow snare_808 velocity params =
     kitPlay e ''snare_808'' velocity params None None"
| "triggerSound e tnow rimshot velocity params =
     whenSynth e (SynthTrigger ''woodblockSynth'' (NoteName ''E5'') ''32n'' (p_time params)
       (effectiveVel velocity params))"
| "triggerSound e tnow clap velocity params = kitPlay e ''clap'' velocity params None None"
| "triggerSound e tnow hihat_closed velocity params =
     kitPlay e ''hihat_closed'' velocity params (Some (5 / 100)) (Some (1 / 10))"
| "triggerSound e tnow hihat_open velocity params =
     kitPlay e ''hihat_open'' velocity params (Some 0) None"
| "triggerSound e tnow tom velocity params =
     whenSynth e (SynthTrigger ''tomSynth'' (transposeNote ''C2'' params) ''8n'' (p_time params)
       (effectiveVel velocity params))"
| "triggerSound e tnow crash velocity params =
     whenSynth e (SynthTrigger ''crashSynth'' (NoteName ''C4'') ''1n'' (p_time params)
       (effectiveVel velocity params))"
| "triggerSound e tnow splash velocity params =
     whenSynth e (SynthTrigger ''splashSynth'' (NoteName ''E4'') ''8n'' (p_time params)
       (effectiveVel velocity params))"
| "triggerSound e tnow china velocity params =
     whenSynth e (SynthTrigger ''chinaSynth'' (NoteName ''G4'') ''2n'' (p_time params)
       (effectiveVel velocity params))"
| "triggerSound e tnow ride velocity params =
     whenSynth e (SynthTrigger ''rideSynth'' (NoteName ''G4'') ''4n'' (p_time params)
       (effectiveVel velocity params * (8 / 10)))"
| "triggerSound e tnow cowbell velocity params =
     whenSynth e (SynthTrigger ''woodblockSynth'' (transposeNote ''G4'' params) ''16n''
       (p_time params) (effectiveVel velocity params))"
| "triggerSound e tnow shaker velocity params =
     whenSynth e (NoiseTrigger ''16n'' (p_time params) (effectiveVel velocity params * (5 / 10)))"
| "triggerSound e tnow tambourine velocity params =
     whenSynth e (NoiseTrigger ''32n'' (p_time params) (effectiveVel velocity params * (7 / 10)))"
| "triggerSound e tnow conga_high velocity params =
     whenSynth e (SynthTrigger ''congaSynth'' (NoteName ''E4'') ''8n'' (p_time params)
       (effectiveVel velocity params))"
| "triggerSound e tnow conga_low velocity params =
     whenSynth e (SynthTrigger ''congaSynth'' (NoteName ''C3'') ''8n'' (p_time params)
       (effectiveVel velocity params))"

subsection \<open>loadUserSample\<close>

text \<open>
  \<open>fileUrl.split('.').pop()?.toLowerCase()\<close>: what follows the last dot (the whole string
  when it has none), in lower case.
\<close>

definition toLowerCase :: "char \<Rightarrow> char" where
  "toLowerCase c =
     (let n = (of_char c :: nat) in if 65 \<le> n \<and> n \<le> 90 then char_of (n + 32) else c)"

definition extension :: "string \<Rightarrow> string" where
  "extension fileUrl = map toLowerCase (rev (takeWhile (\<lambda>c. c \<noteq> CHR ''.'') (rev fileUrl)))"

definition dispose_player :: "nat \<Rightarrow> player list \<Rightarrow> player list" where
  "dispose_player h ps = (if h < length ps then ps[h := (ps ! h)\<lparr>pl_disposed := True\<rparr>] else ps)"

text \<open>
  \<open>loadUserSample\<close> is an \<open>async\<close> function. It runs without interruption up to its
  first \<open>await\<close> (the fetch of a pattern, the \<open>player.load\<close> of an audio file), and again
  from there to its end once the awaited promise has settled; other code, a second call
  of \<open>loadUserSample\<close> included, can run in between. \<open>loadUserSample_begin\<close> is the first
  stretch, and returns what the call is waiting for; \<open>loadUserSample_resume\<close> is the
  second, given how the promise settled. The url only feeds the fetch, whose outcome is an
  input here. An exception anywhere in a \<open>try\<close> block is the outcome \<open>Rejected\<close>: the
  \<open>catch\<close> logs it and the function returns.
\<close>

datatype pending = AwaitMidi int | AwaitAudio int nat

datatype settled = Rejected | ResolvedMidi Midi | ResolvedAudio

text \<open>"Dispose old player/midi if exists"\<close>

definition release_prior :: "engine \<Rightarrow> int \<Rightarrow> engine" where
  "release_prior e key =
     (let e1 = (case customPlayers e key of
                  Some h \<Rightarrow> e\<lparr>players := dispose_player h (players e),
                              customPlayers := (customPlayers e)(key := None)\<rparr>
                | None \<Rightarrow> e)
      in e1\<lparr>customMidi := (customMidi e1)(key := None)\<rparr>)"

definition loadUserSample_begin :: "engine \<Rightarrow> int \<Rightarrow> string \<Rightarrow> engine \<times> pending option" where
  "loadUserSample_begin e noteId fileUrl =
     (let ext = extension fileUrl; e1 = release_prior e noteId in
      if ext = ''prt_omn'' then (e1, None)
      else if ext = ''mid'' then (e1, Some (AwaitMidi noteId))
      else (e1\<lparr>players := players e1 @ [\<lparr>pl_loaded = False, pl_disposed = False\<rparr>]\<rparr>,
            Some (AwaitAudio noteId (length (players e1)))))"

fun loadUserSample_resume :: "engine \<Rightarrow> pending \<Rightarrow> settled \<Rightarrow> engine" where
  "loadUserSample_resume e (AwaitMidi key) (ResolvedMidi midi) =
     e\<lparr>customMidi := (customMidi e)(key \<mapsto> midi)\<rparr>"
| "loadUserSample_resume e (AwaitAudio key h) ResolvedAudio =
     e\<lparr>players := (if h < length (players e)
                     then (players e)[h := (players e ! h)\<lparr>pl_loaded := True\<rparr>]
                     else players e),
       customPlayers := (customPlayers e)(key \<mapsto> h)\<rparr>"
| "loadUserSample_resume e _ _ = e"

text \<open>A call that nothing interrupts: both stretches, one after the other.\<close>

definition loadUserSample :: "engine \<Rightarrow> int \<Rightarrow> string \<Rightarrow> settled \<Rightarrow> engine" where
  "loadUserSample e noteId fileUrl r =
     (case loadUserSample_begin e noteId fileUrl of
        (e1, None) \<Rightarrow> e1
      | (e1, Some w) \<Rightarrow> loadUserSample_resume e1 w r)"

text \<open>
  Two calls for the same pad, the second made while the first is still waiting: the first
  stretch of each, then the second stretch of each, as the promises settle.
\<close>

definition overlapping_loads ::
  "engine \<Rightarrow> int \<Rightarrow> string \<Rightarrow> settled \<Rightarrow> string \<Rightarrow> settled \<Rightarrow> engine" where
  "overlapping_loads e noteId urlA rA urlB rB =
     (case loadUserSample_begin e noteId urlA of
        (e1, wA) \<Rightarrow>
          (case loadUserSample_begin e1 noteId urlB of
             (e2, wB) \<Rightarrow>
               (let e3 = (case wA of Some w \<Rightarrow> loadUserSample_resume e2 w rA | None \<Rightarrow> e2)
                in case wB of Some w \<Rightarrow> loadUserSample_resume e3 w rB | None \<Rightarrow> e3)))"

text \<open>The players that exist and have not been disposed, by handle.\<close>

definition live_players :: "engine \<Rightarrow> nat list" where
  "live_players e = filter (\<lambda>h. \<not> pl_disposed (players e ! h)) [0..<length (players e)]"

text \<open>
  The registry entries of a pad: its audio player's handle, if it has one, and its
  pattern, if it has one.
\<close>

definition registry_entries :: "engine \<Rightarrow> int \<Rightarrow> nat" where
  "registry_entries e key =
     (case customPlayers e key of Some _ \<Rightarrow> 1 | None \<Rightarrow> 0)
       + (case customMidi e key of Some _ \<Rightarrow> 1 | None \<Rightarrow> 0)"

section \<open>The drum kit component (components/DrumKit.tsx)\<close>

record MidiEvent =
  ev_id :: string
  ev_note :: int
  ev_velocity :: real
  ev_timestamp :: int

record Recording =
  rec_id :: int
  rec_name :: string
  rec_events :: "MidiEvent list"
  rec_duration :: int

record SoundMapping =
  m_instrument :: InstrumentType
  m_pitch :: real
  m_volume :: "real option"
  m_pan :: "real option"

text \<open>A call of \<open>triggerSound(type, velocity, params)\<close>.\<close>

record trigger_call =
  c_type :: InstrumentType
  c_velocity :: real
  c_params :: SoundParams

definition perform :: "engine \<Rightarrow> real \<Rightarrow> trigger_call \<Rightarrow> js_error + action list" where
  "perform e tnow c = triggerSound e tnow (c_type c) (c_velocity c) (c_params c)"

text \<open>
  A \<open>Tone.Part\<close> is an object with identity (the cleanup callback compares parts with
  \<open>===\<close>): the store \<open>parts\<close> holds every part created so far, a handle is its index.
  \<open>part_rec\<close> is the \<open>rec.id\<close> of the call that created the part.
\<close>

record part_event =
  pe_time :: real
  pe_note :: int
  pe_velocity :: real

record part =
  part_rec :: int
  part_events :: "part_event list"
  part_start :: real
  part_disposed :: bool

text \<open>A callback registered with \<open>Tone.Transport.scheduleOnce\<close>: its time and its closure.\<close>

record cleanup =
  cl_time :: real
  cl_rec :: int
  cl_part :: nat

text \<open>
  The state of the component that recording, playback and the mapping editor read and
  write; what only the view shows (\<open>activeNote\<close>, \<open>midiHistory\<close>, the open panels) is left
  out. \<open>mappingsRef.current\<close> is set to \<open>mappings\<close> after every render and is the same
  field here. \<open>activeRecordingLoops\<close> is a JavaScript \<open>Map\<close>, kept in insertion order.
\<close>

record drumkit =
  isRecording :: bool
  isRecordingRef :: bool
  recordings :: "Recording list"
  currentRecordingRef :: "MidiEvent list"
  recordStartTimeRef :: int
  mappings :: "int \<rightharpoonup> SoundMapping"
  activeRecordingLoops :: "(int \<times> nat) list"
  parts :: "part list"
  scheduled :: "cleanup list"
  transportStarted :: bool

text \<open>\<open>DEFAULT_MAPPING\<close> is empty; nothing is recorded, playing or scheduled.\<close>

definition drumkit0 :: drumkit where
  "drumkit0 = \<lparr>isRecording = False, isRecordingRef = False, recordings = [],
     currentRecordingRef = [], recordStartTimeRef = 0, mappings = Map.empty,
     activeRecordingLoops = [], parts = [], scheduled = [], transportStarted = False\<rparr>"

subsection \<open>The input listener\<close>

text \<open>
  The callback given to \<open>addListener\<close>, for a pad \<open>note\<close> struck with \<open>velocity\<close>:
  \<open>now\<close> is the reading of \<open>Date.now()\<close>, \<open>eid\<close> the key generated for the event. It
  returns the new state and the call of \<open>triggerSound\<close> it makes.
\<close>

definition listener :: "drumkit \<Rightarrow> int \<Rightarrow> string \<Rightarrow> int \<Rightarrow> real \<Rightarrow> drumkit \<times> trigger_call" where
  "listener s now eid note velocity =
     (let newEvent = \<lparr>ev_id = eid, ev_note = note, ev_velocity = velocity, ev_timestamp = now\<rparr>;
          s1 = (if isRecordingRef s
                then s\<lparr>currentRecordingRef := currentRecordingRef s
                         @ [newEvent\<lparr>ev_timestamp := now - recordStartTimeRef s\<rparr>]\<rparr>
                else s)
      in (s1,
          (case mappings s note of
             Some mapping \<Rightarrow>
               \<lparr>c_type = m_instrument mapping, c_velocity = velocity,
                c_params = \<lparr>p_pitch = Some (m_pitch mapping), p_volume = m_volume mapping,
                   p_pan = m_pan mapping, p_triggerNote = Some note, p_time = None\<rparr>\<rparr>
           | None \<Rightarrow>
               \<lparr>c_type = cowbell, c_velocity = velocity,
                c_params = no_params\<lparr>p_pitch := Some 12\<rparr>\<rparr>)))"

subsection \<open>toggleRecording\<close>

fun digits :: "nat \<Rightarrow> string" where
  "digits n = (if n < 10 then [char_of (48 + n)] else digits (n div 10) @ [char_of (48 + n mod 10)])"

declare digits.simps [simp del]

text \<open>
  \<open>now\<close> is the first reading of \<open>Date.now()\<close> in the branch taken, \<open>now2\<close> the second
  one, which gives the new take its id.
\<close>

definition toggleRecording :: "drumkit \<Rightarrow> int \<Rightarrow> int \<Rightarrow> drumkit" where
  "toggleRecording s now now2 =
     (if \<not> isRecording s
      then s\<lparr>currentRecordingRef := [], recordStartTimeRef := now, isRecording := True,
             isRecordingRef := True\<rparr>
      else
        (let s1 = s\<lparr>isRecording := False, isRecordingRef := False\<rparr> in
         if length (currentRecordingRef s) > 0
         then
           (let duration = now - recordStartTimeRef s;
                newRec = \<lparr>rec_id = now2,
                          rec_name = ''Take '' @ digits (length (recordings s) + 1),
                          rec_events = currentRecordingRef s,
                          rec_duration = duration\<rparr>
            in s1\<lparr>recordings := newRec # recordings s\<rparr>)
         else s1))"

subsection \<open>Playback\<close>

definition dispose_part :: "nat \<Rightarrow> part list \<Rightarrow> part list" where
  "dispose_part h ps = (if h < length ps then ps[h := (ps ! h)\<lparr>part_disposed := True\<rparr>] else ps)"

text \<open>
  \<open>playBackRecording\<close>, from after its two \<open>await\<close>s to its end, which nothing
  interrupts. \<open>secs\<close> is the reading of \<open>Tone.Transport.seconds\<close>.
\<close>

definition playBackRecording :: "drumkit \<Rightarrow> real \<Rightarrow> Recording \<Rightarrow> drumkit" where
  "playBackRecording s secs rec =
     (case map_of (activeRecordingLoops s) (rec_id rec) of
        Some h \<Rightarrow>
          s\<lparr>parts := dispose_part h (parts s),
            activeRecordingLoops := AList.delete (rec_id rec) (activeRecordingLoops s)\<rparr>
      | None \<Rightarrow>
          (let startOffset = secs + 1 / 10;
               partEvents = map (\<lambda>evt. \<lparr>pe_time = real_of_int (ev_timestamp evt) / 1000,
                                         pe_note = ev_note evt,
                                         pe_velocity = ev_velocity evt\<rparr>) (rec_events rec);
               recordingDuration = real_of_int (rec_duration rec) / 1000;
               h = length (parts s)
           in s\<lparr>transportStarted := True,
                parts := parts s @ [\<lparr>part_rec = rec_id rec, part_events = partEvents,
                                      part_start = startOffset, part_disposed = False\<rparr>],
                activeRecordingLoops := AList.update (rec_id rec) h (activeRecordingLoops s),
                scheduled := scheduled s
                  @ [\<lparr>cl_time = startOffset + recordingDuration, cl_rec = rec_id rec,
                       cl_part = h\<rparr>]\<rparr>))"

text \<open>
  The body of the callback given to \<open>scheduleOnce\<close>: "Verify it's still the same part
  (user might have restarted it)".
\<close>

definition cleanup_callback :: "drumkit \<Rightarrow> cleanup \<Rightarrow> drumkit" where
  "cleanup_callback s c =
     (if map_of (activeRecordingLoops s) (cl_rec c) = Some (cl_part c)
      then s\<lparr>parts := dispose_part (cl_part c) (parts s),
             activeRecordingLoops := AList.delete (cl_rec c) (activeRecordingLoops s)\<rparr>
      else s)"

text \<open>The transport runs a scheduled callback once and forgets it.\<close>

definition fire_cleanup :: "drumkit \<Rightarrow> cleanup \<Rightarrow> drumkit" where
  "fire_cleanup s c = cleanup_callback (s\<lparr>scheduled := remove1 c (scheduled s)\<rparr>) c"

definition stopAllRecordings :: "drumkit \<Rightarrow> drumkit" where
  "stopAllRecordings s =
     s\<lparr>parts := fold dispose_part (map snd (activeRecordingLoops s)) (parts s),
       activeRecordingLoops := []\<rparr>"

definition deleteRecording :: "drumkit \<Rightarrow> int \<Rightarrow> drumkit" where
  "deleteRecording s i =
     (let s1 = (case map_of (activeRecordingLoops s) i of
                  Some h \<Rightarrow> s\<lparr>parts := dispose_part h (parts s),
                              activeRecordingLoops := AList.delete i (activeRecordingLoops s)\<rparr>
                | None \<Rightarrow> s)
      in s1\<lparr>recordings := filter (\<lambda>r. rec_id r \<noteq> i) (recordings s)\<rparr>)"

text \<open>
  The callback of the part, for the event \<open>value\<close> at \<open>time\<close>, under the mappings
  current when it runs: the call of \<open>triggerSound\<close> it makes, if any.
\<close>

definition part_callback :: "(int \<rightharpoonup> SoundMapping) \<Rightarrow> real \<Rightarrow> part_event \<Rightarrow> trigger_call option" where
  "part_callback mp time value =
     (case mp (pe_note value) of
        Some mapping \<Rightarrow>
          Some \<lparr>c_type = m_instrument mapping, c_velocity = pe_velocity value,
                c_params = \<lparr>p_pitch = Some (m_pitch mapping), p_volume = m_volume mapping,
                   p_pan = m_pan mapping, p_triggerNote = Some (pe_note value),
                   p_time = Some time\<rparr>\<rparr>
      | None \<Rightarrow> None)"

text \<open>
  What a part that is left to play to its end dispatches. The transport runs the
  callback once for each event of the part, at the part's start plus the event's time, the
  events in ascending time and those of equal time in the order they were given; a disposed
  part runs nothing.
\<close>

definition part_calls :: "(int \<rightharpoonup> SoundMapping) \<Rightarrow> part \<Rightarrow> trigger_call list" where
  "part_calls mp p =
     (if part_disposed p then []
      else List.map_filter (\<lambda>value. part_callback mp (part_start p + pe_time value) value)
             (sort_key pe_time (part_events p)))"

text \<open>The parts of a take that exist and have not been disposed, by handle.\<close>

definition live_parts :: "drumkit \<Rightarrow> int \<Rightarrow> nat list" where
  "live_parts s i =
     filter (\<lambda>h. \<not> part_disposed (parts s ! h) \<and> part_rec (parts s ! h) = i)
       [0..<length (parts s)]"

text \<open>Pressing play on a take, and what the part it starts dispatches when left to play.\<close>

definition play_calls :: "drumkit \<Rightarrow> real \<Rightarrow> Recording \<Rightarrow> trigger_call list" where
  "play_calls s secs rec =
     (let s1 = playBackRecording s secs rec in
      case map_of (activeRecordingLoops s1) (rec_id rec) of
        Some h \<Rightarrow> (if h < length (parts s1) then part_calls (mappings s1) (parts s1 ! h) else [])
      | None \<Rightarrow> [])"

subsection \<open>updateMapping\<close>

text \<open>\<open>{ ...prev, [note]: { ...prev[note], instrument, pitch } }\<close>\<close>

definition updateMapping :: "drumkit \<Rightarrow> int \<Rightarrow> InstrumentType \<Rightarrow> real \<Rightarrow> drumkit" where
  "updateMapping s note instrument pitch =
     s\<lparr>mappings := (mappings s)(note \<mapsto>
          (case mappings s note of
             Some prev \<Rightarrow> prev\<lparr>m_instrument := instrument, m_pitch := pitch\<rparr>
           | None \<Rightarrow> \<lparr>m_instrument = instrument, m_pitch = pitch, m_volume = None,
                       m_pan = None\<rparr>))\<rparr>"

section \<open>The step sequencer (components/Sequencer.tsx)\<close>

record SequenceRow =
  row_id :: string
  row_name :: string
  row_instrument :: InstrumentType
  row_key :: string
  row_pitch :: "real option"

record sequencer =
  rows :: "SequenceRow list"
  grid :: "bool list list"
  currentStep :: nat

text \<open>
  \<open>seqState.rows.forEach((row, rowIndex) => { if (seqState.grid[rowIndex][step]) ... })\<close>
  from the row of index \<open>i\<close> on. A row with no row of the grid throws a TypeError; a step
  beyond the end of the grid's row reads \<open>undefined\<close>, which is falsy. A call of
  \<open>triggerSound\<close> that throws ends the loop. The result is the calls made, in order, and
  the error thrown, if any.
\<close>

definition cell :: "bool list list \<Rightarrow> nat \<Rightarrow> nat \<Rightarrow> bool" where
  "cell g i step = (step < length (g ! i) \<and> (g ! i) ! step)"

fun tick_rows ::
  "engine \<Rightarrow> real \<Rightarrow> bool list list \<Rightarrow> nat \<Rightarrow> nat \<Rightarrow> SequenceRow list
     \<Rightarrow> trigger_call list \<times> js_error option" where
  "tick_rows e tnow g step i [] = ([], None)"
| "tick_rows e tnow g step i (row # rest) =
     (if length g \<le> i then ([], Some TypeError)
      else if cell g i step
      then
        (let c = \<lparr>c_type = row_instrument row, c_velocity = 8 / 10,
                  c_params = no_params\<lparr>p_pitch := row_pitch row\<rparr>\<rparr> in
         case perform e tnow c of
           Inl err \<Rightarrow> ([c], Some err)
         | Inr _ \<Rightarrow> (case tick_rows e tnow g step (Suc i) rest of (cs, r) \<Rightarrow> (c # cs, r)))
      else tick_rows e tnow g step (Suc i) rest)"

text \<open>
  The callback \<open>(_time, step) => ...\<close> of the \<open>Tone.Sequence\<close>: \<open>time\<close> is the time of the
  tick the transport passes, \<open>tnow\<close> the reading of \<open>Tone.now()\<close>.
\<close>

definition sequence_tick ::
  "engine \<Rightarrow> real \<Rightarrow> sequencer \<Rightarrow> real \<Rightarrow> nat
     \<Rightarrow> sequencer \<times> trigger_call list \<times> js_error option" where
  "sequence_tick e tnow q time step =
     (q\<lparr>currentStep := step\<rparr>, tick_rows e tnow (grid q) step 0 (rows q))"

section \<open>A recording session under the default mapping\<close>

text \<open>
  With the mapping table as it is at first (empty), recording is started at clock reading
  1000, pad 60 is struck with velocity 0.8 at 1000 and pad 62 with velocity 0.5 at 1250,
  and recording is stopped at 1600.
\<close>

definition session_recorded :: drumkit where
  "session_recorded =
     toggleRecording
       (fst (listener (fst (listener (toggleRecording drumkit0 1000 1000)
                              1000 ''e1'' 60 (8 / 10)))
               1250 ''e2'' 62 (5 / 10)))
       1600 1601"

definition session_take :: Recording where
  "session_take =
     \<lparr>rec_id = 1601, rec_name = ''Take 1'',
      rec_events = [\<lparr>ev_id = ''e1'', ev_note = 60, ev_velocity = 8 / 10, ev_timestamp = 0\<rparr>,
                    \<lparr>ev_id = ''e2'', ev_note = 62, ev_velocity = 5 / 10, ev_timestamp = 250\<rparr>],
      rec_duration = 600\<rparr>"

section \<open>Reachable states of the drum kit\<close>

text \<open>
  The states the component can be in: from the initial one, by any of its operations, in
  any order and with any arguments. A scheduled cleanup callback may fire at any time
  after it was registered; the mapping table may be replaced as a whole (loading a kit,
  moving a pad's volume slider).
\<close>

inductive reachable :: "drumkit \<Rightarrow> bool" where
  r_init: "reachable drumkit0"
| r_play: "reachable s \<Longrightarrow> reachable (playBackRecording s secs rec)"
| r_fire: "reachable s \<Longrightarrow> c \<in> set (scheduled s) \<Longrightarrow> reachable (fire_cleanup s c)"
| r_stopAll: "reachable s \<Longrightarrow> reachable (stopAllRecordings s)"
| r_delete: "reachable s \<Longrightarrow> reachable (deleteRecording s i)"
| r_toggle: "reachable s \<Longrightarrow> reachable (toggleRecording s now now2)"
| r_listen: "reachable s \<Longrightarrow> reachable (fst (listener s now eid note velocity))"
| r_remap: "reachable s \<Longrightarrow> reachable (updateMapping s note instrument pitch)"
| r_setMappings: "reachable s \<Longrightarrow> reachable (s\<lparr>mappings := mp\<rparr>)"

text \<open>
  Every part that has not been disposed is the one registered for the id of its take, and
  every registered part exists, was created for the id it is registered under, and has not
  been disposed.
\<close>

definition wf_timelines :: "drumkit \<Rightarrow> bool" where
  "wf_timelines s \<longleftrightarrow>
     (\<forall>h<length (parts s). \<not> part_disposed (parts s ! h) \<longrightarrow>
         map_of (activeRecordingLoops s) (part_rec (parts s ! h)) = Some h)
     \<and> (\<forall>i h. map_of (activeRecordingLoops s) i = Some h \<longrightarrow>
         h < length (parts s) \<and> part_rec (parts s ! h) = i \<and> \<not> part_disposed (parts s ! h))"

section \<open>Properties\<close>

subsection \<open>Velocity normalisation\<close>

lemma ext_wav: "extension ''a.wav'' = ''wav''" "extension ''b.wav'' = ''wav''"
  "extension ''a.mid'' = ''mid''"
  by code_simp+

lemma vel_of_idem: "vel_of (vel_of velocity) = vel_of velocity"
  by (simp add: vel_of_def)

lemma effectiveVel_vel_of: "effectiveVel (vel_of velocity) params = effectiveVel velocity params"
  by (simp add: effectiveVel_def vel_of_idem)

lemma triggerSound_vel_of:
  "triggerSound e tnow ty (vel_of velocity) params = triggerSound e tnow ty velocity params"
  by (cases ty)
    (simp_all add: kitPlay_def triggerCustom_def effectiveVel_vel_of vel_of_idem Let_def
       split: option.splits)

lemma triggerSound_gain:
  assumes "isInitialized e" and "ty \<noteq> custom"
  shows "\<exists>a. triggerSound e tnow ty velocity params = Inr [a]
    \<and> gain_of a = Some (max (vel_of velocity * volMult params) (1 / 1000) * voice_factor ty)"
  using assms
  by (cases ty) (simp_all add: kitPlay_def whenSynth_def effectiveVel_def voice_factor_def)

lemma triggerSound_custom_player:
  assumes "p_triggerNote params = Some key" and "customMidi e key = None"
    and "customPlayers e key = Some h" and "player_loaded e h"
  shows "triggerSound e tnow custom velocity params =
    Inr [CustomPlay h (pbRate params) (p_time params)
           (max (vel_of velocity * volMult params) (1 / 1000))]"
  using assms by (simp add: triggerCustom_def effectiveVel_def)

lemma triggerSound_custom_midi:
  assumes "p_triggerNote params = Some key" and "customMidi e key = Some midi"
    and "isInitialized e"
  shows "\<exists>as. triggerSound e tnow custom velocity params = Inr as
    \<and> map gain_of as = map (\<lambda>n. Some (n_velocity n * vel_of velocity)) (concat midi)"
  using assms by (simp add: triggerCustom_def Let_def comp_def)

text \<open>
  C4. For every velocity passed to \<open>triggerSound\<close>, a value above 1 is divided by 127 and
  clamped to the interval from 0.1 to 1, and the velocity \<open>vel\<close> so obtained lies between
  0 and 1 for every velocity that is not negative, be it a float between 0 and 1 or an
  integer between 0 and 127. This \<open>vel\<close> is the velocity the gain is computed from: what
  \<open>triggerSound\<close> does depends on the velocity through \<open>vel\<close> only; every voice of the kit
  and every synth is triggered with the gain \<open>max(vel * volume, 0.001)\<close>, times the fixed
  factor of the voice; a custom player is started with that gain; and each note of a custom
  pattern is played with its own velocity times \<open>vel\<close>.
\<close>

theorem velocity_normalized:
  "(1 < velocity \<longrightarrow>
      vel_of velocity = min (max (velocity / 127) (1 / 10)) 1
      \<and> 1 / 10 \<le> vel_of velocity \<and> vel_of velocity \<le> 1)
   \<and> (0 \<le> velocity \<longrightarrow> 0 \<le> vel_of velocity \<and> vel_of velocity \<le> 1)
   \<and> triggerSound e tnow ty velocity params = triggerSound e tnow ty (vel_of velocity) params
   \<and> (isInitialized e \<and> ty \<noteq> custom \<longrightarrow>
        (\<exists>a. triggerSound e tnow ty velocity params = Inr [a]
           \<and> gain_of a
               = Some (max (vel_of velocity * volMult params) (1 / 1000) * voice_factor ty)))
   \<and> (\<forall>key h. p_triggerNote params = Some key \<and> customMidi e key = None
          \<and> customPlayers e key = Some h \<and> player_loaded e h \<longrightarrow>
        triggerSound e tnow custom velocity params =
          Inr [CustomPlay h (pbRate params) (p_time params)
                 (max (vel_of velocity * volMult params) (1 / 1000))])
   \<and> (\<forall>key midi. p_triggerNote params = Some key \<and> customMidi e key = Some midi
          \<and> isInitialized e \<longrightarrow>
        (\<exists>as. triggerSound e tnow custom velocity params = Inr as
           \<and> map gain_of as
               = map (\<lambda>n. Some (n_velocity n * vel_of velocity)) (concat midi)))"
proof -
  have r1: "1 < velocity \<longrightarrow>
      vel_of velocity = min (max (velocity / 127) (1 / 10)) 1
      \<and> 1 / 10 \<le> vel_of velocity \<and> vel_of velocity \<le> 1"
    by (auto simp: vel_of_def min_def max_def)
  have r2: "0 \<le> velocity \<longrightarrow> 0 \<le> vel_of velocity \<and> vel_of velocity \<le> 1"
    by (auto simp: vel_of_def min_def max_def)
  have r3: "triggerSound e tnow ty velocity params
      = triggerSound e tnow ty (vel_of velocity) params"
    by (simp add: triggerSound_vel_of)
  have r4: "isInitialized e \<and> ty \<noteq> custom \<longrightarrow>
        (\<exists>a. triggerSound e tnow ty velocity params = Inr [a]
           \<and> gain_of a
               = Some (max (vel_of velocity * volMult params) (1 / 1000) * voice_factor ty))"
    using triggerSound_gain [of e ty tnow velocity params] by blast
  have r5: "\<forall>key h. p_triggerNote params = Some key \<and> customMidi e key = None
          \<and> customPlayers e key = Some h \<and> player_loaded e h \<longrightarrow>
        triggerSound e tnow custom velocity params =
          Inr [CustomPlay h (pbRate params) (p_time params)
                 (max (vel_of velocity * volMult params) (1 / 1000))]"
    using triggerSound_custom_player [of params _ e _ tnow velocity] by blast
  have r6: "\<forall>key midi. p_triggerNote params = Some key \<and> customMidi e key = Some midi
          \<and> isInitialized e \<longrightarrow>
        (\<exists>as. triggerSound e tnow custom velocity params = Inr as
           \<and> map gain_of as
               = map (\<lambda>n. Some (n_velocity n * vel_of velocity)) (concat midi))"
    using triggerSound_custom_midi [of params _ e _ tnow velocity] by blast
  show ?thesis
    by (intro conjI r1 r2 r3 r4 r5 r6)
qed

theorem velocity_normalized_witness:
  "(1::real) < 100 \<and> vel_of 100 = 100 / 127 \<and> 1 / 10 \<le> vel_of 100 \<and> vel_of 100 \<le> 1
   \<and> (0::real) \<le> 1 / 2 \<and> vel_of (1 / 2) = 1 / 2
   \<and> triggerSound (initAudio engine0) 0 ride 100 (no_params\<lparr>p_volume := Some (1 / 2)\<rparr>)
       = triggerSound (initAudio engine0) 0 ride (100 / 127) (no_params\<lparr>p_volume := Some (1 / 2)\<rparr>)
   \<and> isInitialized (initAudio engine0) \<and> ride \<noteq> custom
   \<and> (\<exists>a. triggerSound (initAudio engine0) 0 ride 100 (no_params\<lparr>p_volume := Some (1 / 2)\<rparr>)
             = Inr [a]
          \<and> gain_of a = Some (40 / 127))
   \<and> player_loaded (loadUserSample (initAudio engine0) 40 ''a.wav'' ResolvedAudio) 0
   \<and> triggerSound (loadUserSample (initAudio engine0) 40 ''a.wav'' ResolvedAudio) 0 custom 100
        (no_params\<lparr>p_triggerNote := Some 40, p_volume := Some 5\<rparr>)
       = Inr [CustomPlay 0 1 None (500 / 127)]
   \<and> (\<exists>as. triggerSound
          (loadUserSample (initAudio engine0) 41 ''a.mid''
             (ResolvedMidi [[\<lparr>n_name = ''C4'', n_duration = 1 / 2, n_time = 0,
                               n_velocity = 1 / 2\<rparr>]]))
          0 custom 100 (no_params\<lparr>p_triggerNote := Some 41\<rparr>) = Inr as
        \<and> map gain_of as = [Some (50 / 127)])"
proof -
  let ?e = "initAudio engine0"
  let ?pv = "no_params\<lparr>p_volume := Some (1 / 2)\<rparr>"
  let ?ea = "loadUserSample ?e 40 ''a.wav'' ResolvedAudio"
  let ?pa = "no_params\<lparr>p_triggerNote := Some 40, p_volume := Some 5\<rparr>"
  let ?m = "[[\<lparr>n_name = ''C4'', n_duration = 1 / 2, n_time = 0, n_velocity = 1 / 2\<rparr>]]"
  let ?em = "loadUserSample ?e 41 ''a.mid'' (ResolvedMidi ?m)"
  let ?pm = "no_params\<lparr>p_triggerNote := Some 41\<rparr>"
  have i: "isInitialized ?e" "isInitialized ?em"
    by (simp_all add: initAudio_def engine0_def loadUserSample_def loadUserSample_begin_def
        release_prior_def ext_wav Let_def)
  have v: "vel_of 100 = 100 / 127" "vel_of (1 / 2) = 1 / 2"
    by (simp_all add: vel_of_def)
  have ride: "isInitialized ?e \<and> ride \<noteq> custom" using i by simp
  have pl: "p_triggerNote ?pa = Some 40 \<and> customMidi ?ea 40 = None
      \<and> customPlayers ?ea 40 = Some 0 \<and> player_loaded ?ea 0"
    by (simp add: initAudio_def engine0_def loadUserSample_def loadUserSample_begin_def
        release_prior_def ext_wav Let_def no_params_def player_loaded_def)
  have md: "p_triggerNote ?pm = Some 41 \<and> customMidi ?em 41 = Some ?m \<and> isInitialized ?em"
    using i by (simp add: initAudio_def engine0_def loadUserSample_def loadUserSample_begin_def
        release_prior_def ext_wav Let_def no_params_def)
  note t1 = velocity_normalized [of 100 ?e 0 ride ?pv]
  note t2 = velocity_normalized [of "1 / 2" ?e 0 ride ?pv]
  note t3 = velocity_normalized [of 100 ?ea 0 custom ?pa]
  note t4 = velocity_normalized [of 100 ?em 0 custom ?pm]
  have a: "triggerSound ?e 0 ride 100 ?pv = triggerSound ?e 0 ride (100 / 127) ?pv"
    using t1 v by simp
  have b: "\<exists>a. triggerSound ?e 0 ride 100 ?pv = Inr [a] \<and> gain_of a = Some (40 / 127)"
    using t1 [THEN conjunct2, THEN conjunct2, THEN conjunct2, THEN conjunct1, THEN mp, OF ride] v
    by (simp add: volMult_def no_params_def voice_factor_def)
  have c: "triggerSound ?ea 0 custom 100 ?pa = Inr [CustomPlay 0 1 None (500 / 127)]"
    using t3 [THEN conjunct2, THEN conjunct2, THEN conjunct2, THEN conjunct2, THEN conjunct1,
        THEN spec, THEN spec, THEN mp, OF pl] v
    by (simp add: volMult_def no_params_def pbRate_def pitch_or_def)
  have d: "\<exists>as. triggerSound ?em 0 custom 100 ?pm = Inr as \<and> map gain_of as = [Some (50 / 127)]"
    using t4 [THEN conjunct2, THEN conjunct2, THEN conjunct2, THEN conjunct2, THEN conjunct2,
        THEN spec, THEN spec, THEN mp, OF md] v
    by simp
  show ?thesis
    using a b c d v i pl t2 by simp
qed

subsection \<open>Pan updates\<close>

text \<open>
  What \<open>updatePan\<close> does, case by case: a value in the range is stored on the panner of
  that name and nothing else changes; a value out of the range is refused with a
  RangeError; an inherited name throws a TypeError; any other name is ignored.
\<close>

lemma updatePan_cases:
  "(panners e name \<noteq> None \<and> - 1 \<le> v \<and> v \<le> 1 \<longrightarrow>
      updatePan e name v = Inr (e\<lparr>panners := (panners e)(name \<mapsto> v)\<rparr>))
   \<and> (panners e name \<noteq> None \<and> (v < - 1 \<or> 1 < v) \<longrightarrow> updatePan e name v = Inl RangeError)
   \<and> (panners e name = None \<and> name \<in> set object_prototype_names \<longrightarrow>
        updatePan e name v = Inl TypeError)
   \<and> (panners e name = None \<and> name \<notin> set object_prototype_names \<longrightarrow>
        updatePan e name v = Inr e)"
  by (auto simp: updatePan_def set_pan_value_def split: option.splits)


subsection \<open>Editing a mapping\<close>

text \<open>
  C10. \<open>updateMapping(note, instrument, pitch)\<close> sets the instrument and the pitch of the
  mapping of that note and keeps its volume and pan, if it had any; the mapping of every
  other note, and the rest of the state, are left as they were.
\<close>

theorem updateMapping_frame:
  "mappings (updateMapping s note instrument pitch) note =
     Some \<lparr>m_instrument = instrument, m_pitch = pitch,
           m_volume = (case mappings s note of Some prev \<Rightarrow> m_volume prev | None \<Rightarrow> None),
           m_pan = (case mappings s note of Some prev \<Rightarrow> m_pan prev | None \<Rightarrow> None)\<rparr>
   \<and> (\<forall>n. n \<noteq> note \<longrightarrow> mappings (updateMapping s note instrument pitch) n = mappings s n)
   \<and> (updateMapping s note instrument pitch)\<lparr>mappings := mappings s\<rparr> = s"
  by (auto simp: updateMapping_def split: option.splits)

theorem updateMapping_frame_witness:
  "mappings
     (updateMapping
        (drumkit0\<lparr>mappings :=
           [36 \<mapsto> \<lparr>m_instrument = snare, m_pitch = 2, m_volume = Some (1 / 2), m_pan = Some (- 1)\<rparr>,
            38 \<mapsto> \<lparr>m_instrument = kick, m_pitch = 0, m_volume = None, m_pan = None\<rparr>]\<rparr>)
        36 tom 3) 36
     = Some \<lparr>m_instrument = tom, m_pitch = 3, m_volume = Some (1 / 2), m_pan = Some (- 1)\<rparr>
   \<and> (38::int) \<noteq> 36
   \<and> mappings
     (updateMapping
        (drumkit0\<lparr>mappings :=
           [36 \<mapsto> \<lparr>m_instrument = snare, m_pitch = 2, m_volume = Some (1 / 2), m_pan = Some (- 1)\<rparr>,
            38 \<mapsto> \<lparr>m_instrument = kick, m_pitch = 0, m_volume = None, m_pan = None\<rparr>]\<rparr>)
        36 tom 3) 38
     = Some \<lparr>m_instrument = kick, m_pitch = 0, m_volume = None, m_pan = None\<rparr>"
  using updateMapping_frame
    [of "drumkit0\<lparr>mappings :=
           [36 \<mapsto> \<lparr>m_instrument = snare, m_pitch = 2, m_volume = Some (1 / 2), m_pan = Some (- 1)\<rparr>,
            38 \<mapsto> \<lparr>m_instrument = kick, m_pitch = 0, m_volume = None, m_pan = None\<rparr>]\<rparr>"
        36 tom 3]
  by simp

subsection \<open>Stopping a recording\<close>

lemma digits_1: "digits (Suc 0) = ''1''"
  by code_simp

text \<open>
  C6. Stopping a recording returns the recorder to idle. If at least one event was
  captured, a new take is put at the head of the list of takes: its events are the
  captured events and its duration is the time of the stop minus the time of the start.
  If no event was captured, the list of takes is unchanged.
\<close>

theorem toggleRecording_stop:
  assumes "isRecording s"
  shows "\<not> isRecording (toggleRecording s now now2)
    \<and> \<not> isRecordingRef (toggleRecording s now now2)
    \<and> (currentRecordingRef s \<noteq> [] \<longrightarrow>
         recordings (toggleRecording s now now2) =
           \<lparr>rec_id = now2, rec_name = ''Take '' @ digits (length (recordings s) + 1),
            rec_events = currentRecordingRef s,
            rec_duration = now - recordStartTimeRef s\<rparr> # recordings s)
    \<and> (currentRecordingRef s = [] \<longrightarrow>
         recordings (toggleRecording s now now2) = recordings s)"
  using assms by (simp add: toggleRecording_def Let_def)

theorem toggleRecording_stop_witness:
  "isRecording (fst (listener (toggleRecording drumkit0 1000 1000) 1250 ''e1'' 60 100))
   \<and> currentRecordingRef (fst (listener (toggleRecording drumkit0 1000 1000) 1250 ''e1'' 60 100))
       \<noteq> []
   \<and> recordings (toggleRecording
        (fst (listener (toggleRecording drumkit0 1000 1000) 1250 ''e1'' 60 100)) 1600 1601)
     = [\<lparr>rec_id = 1601, rec_name = ''Take 1'',
         rec_events = [\<lparr>ev_id = ''e1'', ev_note = 60, ev_velocity = 100, ev_timestamp = 250\<rparr>],
         rec_duration = 600\<rparr>]
   \<and> \<not> isRecording (toggleRecording
        (fst (listener (toggleRecording drumkit0 1000 1000) 1250 ''e1'' 60 100)) 1600 1601)
   \<and> isRecording (toggleRecording drumkit0 1000 1000)
   \<and> currentRecordingRef (toggleRecording drumkit0 1000 1000) = []
   \<and> recordings (toggleRecording (toggleRecording drumkit0 1000 1000) 1600 1601) = []"
  using toggleRecording_stop
    [of "fst (listener (toggleRecording drumkit0 1000 1000) 1250 ''e1'' 60 100)" 1600 1601]
    toggleRecording_stop [of "toggleRecording drumkit0 1000 1000" 1600 1601]
  by (simp add: toggleRecording_def listener_def drumkit0_def Let_def digits_1)

subsection \<open>Playback timelines\<close>

lemma length_dispose_part [simp]: "length (dispose_part h ps) = length ps"
  by (simp add: dispose_part_def)

lemma nth_dispose_part:
  "k < length ps \<Longrightarrow>
     dispose_part h ps ! k = (if k = h then (ps ! k)\<lparr>part_disposed := True\<rparr> else ps ! k)"
  by (simp add: dispose_part_def)

lemma length_fold_dispose [simp]: "length (fold dispose_part hs ps) = length ps"
  by (induction hs arbitrary: ps) auto

lemma nth_fold_dispose:
  "k < length ps \<Longrightarrow>
     part_disposed (fold dispose_part hs ps ! k) = (part_disposed (ps ! k) \<or> k \<in> set hs)
     \<and> part_rec (fold dispose_part hs ps ! k) = part_rec (ps ! k)"
  by (induction hs arbitrary: ps) (auto simp: nth_dispose_part)

lemma wf_drumkit0: "wf_timelines drumkit0"
  by (simp add: wf_timelines_def drumkit0_def)

lemma wf_stop_part:
  assumes wf: "wf_timelines s" and reg: "map_of (activeRecordingLoops s) i = Some h"
  shows "wf_timelines (s\<lparr>parts := dispose_part h (parts s),
            activeRecordingLoops := AList.delete i (activeRecordingLoops s)\<rparr>)"
proof -
  let ?al = "activeRecordingLoops s" and ?ps = "parts s"
  from wf have live: "\<And>k. k < length ?ps \<Longrightarrow> \<not> part_disposed (?ps ! k) \<Longrightarrow>
      map_of ?al (part_rec (?ps ! k)) = Some k"
    and regd: "\<And>j k. map_of ?al j = Some k \<Longrightarrow>
      k < length ?ps \<and> part_rec (?ps ! k) = j \<and> \<not> part_disposed (?ps ! k)"
    unfolding wf_timelines_def by blast+
  from regd [OF reg] have h: "h < length ?ps" "part_rec (?ps ! h) = i" by simp_all
  have a: "map_of (AList.delete i ?al) (part_rec (dispose_part h ?ps ! k)) = Some k"
    if "k < length ?ps" "\<not> part_disposed (dispose_part h ?ps ! k)" for k
  proof -
    from that have kh: "k \<noteq> h" and "\<not> part_disposed (?ps ! k)"
      by (auto simp: nth_dispose_part split: if_splits)
    with that live have m: "map_of ?al (part_rec (?ps ! k)) = Some k" by simp
    with reg kh have "part_rec (?ps ! k) \<noteq> i" by auto
    with m kh that show ?thesis by (simp add: nth_dispose_part)
  qed
  have b: "k < length ?ps \<and> part_rec (dispose_part h ?ps ! k) = j
      \<and> \<not> part_disposed (dispose_part h ?ps ! k)"
    if "map_of (AList.delete i ?al) j = Some k" for j k
  proof -
    from that have ji: "j \<noteq> i" and m: "map_of ?al j = Some k"
      by (auto simp: AList.delete_conv' split: if_splits)
    from regd [OF m] have k: "k < length ?ps" "part_rec (?ps ! k) = j"
      "\<not> part_disposed (?ps ! k)" by simp_all
    with ji h have "k \<noteq> h" by auto
    with k show ?thesis by (simp add: nth_dispose_part)
  qed
  show ?thesis
    unfolding wf_timelines_def using a b by simp
qed

lemma wf_play: "wf_timelines s \<Longrightarrow> wf_timelines (playBackRecording s secs rec)"
proof (cases "map_of (activeRecordingLoops s) (rec_id rec)")
  case None
  assume wf: "wf_timelines s"
  let ?al = "activeRecordingLoops s" and ?ps = "parts s"
  let ?i = "rec_id rec"
  define p where "p = \<lparr>part_rec = ?i,
      part_events = map (\<lambda>evt. \<lparr>pe_time = real_of_int (ev_timestamp evt) / 1000,
                                 pe_note = ev_note evt, pe_velocity = ev_velocity evt\<rparr>)
                      (rec_events rec),
      part_start = secs + 1 / 10, part_disposed = False\<rparr>"
  have p: "part_rec p = ?i" "\<not> part_disposed p"
    by (simp_all add: p_def)
  have s': "parts (playBackRecording s secs rec) = ?ps @ [p]"
      "activeRecordingLoops (playBackRecording s secs rec) = AList.update ?i (length ?ps) ?al"
    using None by (simp_all add: playBackRecording_def Let_def p_def)
  from wf have live: "\<And>k. k < length ?ps \<Longrightarrow> \<not> part_disposed (?ps ! k) \<Longrightarrow>
      map_of ?al (part_rec (?ps ! k)) = Some k"
    and regd: "\<And>j k. map_of ?al j = Some k \<Longrightarrow>
      k < length ?ps \<and> part_rec (?ps ! k) = j \<and> \<not> part_disposed (?ps ! k)"
    unfolding wf_timelines_def by blast+
  have a: "map_of (AList.update ?i (length ?ps) ?al) (part_rec ((?ps @ [p]) ! k)) = Some k"
    if "k < length (?ps @ [p])" "\<not> part_disposed ((?ps @ [p]) ! k)" for k
  proof (cases "k < length ?ps")
    case True
    with that have m: "map_of ?al (part_rec (?ps ! k)) = Some k"
      using live by (simp add: nth_append)
    with None have "part_rec (?ps ! k) \<noteq> ?i" by auto
    with m True show ?thesis by (simp add: AList.update_conv' nth_append)
  next
    case False
    with that have "k = length ?ps" by simp
    with p show ?thesis by (simp add: AList.update_conv')
  qed
  have b: "k < length (?ps @ [p]) \<and> part_rec ((?ps @ [p]) ! k) = j
      \<and> \<not> part_disposed ((?ps @ [p]) ! k)"
    if "map_of (AList.update ?i (length ?ps) ?al) j = Some k" for j k
  proof (cases "j = ?i")
    case True
    with that have "k = length ?ps" by (simp add: AList.update_conv')
    with p True show ?thesis by simp
  next
    case False
    with that have "map_of ?al j = Some k" by (simp add: AList.update_conv')
    from regd [OF this] show ?thesis by (simp add: nth_append)
  qed
  show ?thesis
    unfolding wf_timelines_def s' using a b by blast
next
  case (Some h)
  assume "wf_timelines s"
  from wf_stop_part [OF this Some] Some show ?thesis
    by (simp add: playBackRecording_def)
qed

lemma wf_cleanup: "wf_timelines s \<Longrightarrow> wf_timelines (cleanup_callback s c)"
  using wf_stop_part [of s "cl_rec c" "cl_part c"]
  by (simp add: cleanup_callback_def)

lemma wf_scheduled: "wf_timelines (s\<lparr>scheduled := x\<rparr>) = wf_timelines s"
  by (simp add: wf_timelines_def)

lemma wf_fire: "wf_timelines s \<Longrightarrow> wf_timelines (fire_cleanup s c)"
  by (simp add: fire_cleanup_def wf_cleanup wf_scheduled)

lemma wf_stopAll: "wf_timelines s \<Longrightarrow> wf_timelines (stopAllRecordings s)"
proof -
  assume wf: "wf_timelines s"
  have "part_disposed (fold dispose_part (map snd (activeRecordingLoops s)) (parts s) ! h)"
    if "h < length (parts s)" for h
  proof (cases "part_disposed (parts s ! h)")
    case True
    with that show ?thesis by (simp add: nth_fold_dispose)
  next
    case False
    with wf that have "map_of (activeRecordingLoops s) (part_rec (parts s ! h)) = Some h"
      by (simp add: wf_timelines_def)
    then have "h \<in> snd ` set (activeRecordingLoops s)"
      by (metis map_of_SomeD image_eqI snd_conv)
    with that show ?thesis by (simp add: nth_fold_dispose)
  qed
  then show ?thesis
    by (simp add: wf_timelines_def stopAllRecordings_def)
qed

lemma wf_recordings: "wf_timelines (s\<lparr>recordings := x\<rparr>) = wf_timelines s"
  by (simp add: wf_timelines_def)

lemma wf_delete: "wf_timelines s \<Longrightarrow> wf_timelines (deleteRecording s i)"
  using wf_stop_part [of s i]
  by (auto simp: deleteRecording_def Let_def wf_timelines_def split: option.splits)

lemma wf_toggle: "wf_timelines s \<Longrightarrow> wf_timelines (toggleRecording s now now2)"
  by (simp add: wf_timelines_def toggleRecording_def Let_def)

lemma wf_listen: "wf_timelines s \<Longrightarrow> wf_timelines (fst (listener s now eid note velocity))"
  by (simp add: wf_timelines_def listener_def Let_def)

lemma wf_remap: "wf_timelines s \<Longrightarrow> wf_timelines (updateMapping s note instrument pitch)"
  by (simp add: wf_timelines_def updateMapping_def)

lemma wf_setMappings: "wf_timelines (s\<lparr>mappings := mp\<rparr>) = wf_timelines s"
  by (simp add: wf_timelines_def)

lemma reachable_wf: "reachable s \<Longrightarrow> wf_timelines s"
  by (induction rule: reachable.induct)
    (simp_all add: wf_drumkit0 wf_play wf_fire wf_stopAll wf_delete wf_toggle wf_listen wf_remap
       wf_setMappings)

lemma filter_upt_none: "(\<forall>x<n. \<not> P x) \<Longrightarrow> filter P [0..<n] = []"
  by (induction n) auto

lemma filter_upt_single:
  "h < n \<Longrightarrow> (\<forall>x<n. P x \<longleftrightarrow> x = h) \<Longrightarrow> filter P [0..<n] = [h]"
proof (induction n)
  case 0
  then show ?case by simp
next
  case (Suc n)
  show ?case
  proof (cases "h = n")
    case True
    with Suc.prems have "\<forall>x<n. \<not> P x" by auto
    then have "filter P [0..<n] = []" by (rule filter_upt_none)
    with True Suc.prems show ?thesis by simp
  next
    case False
    with Suc.prems have "h < n" "\<forall>x<n. P x \<longleftrightarrow> x = h" "\<not> P n" by auto
    with Suc.IH show ?thesis by simp
  qed
qed

lemma live_parts_wf:
  assumes "wf_timelines s"
  shows "live_parts s i = (case map_of (activeRecordingLoops s) i of Some h \<Rightarrow> [h] | None \<Rightarrow> [])"
proof (cases "map_of (activeRecordingLoops s) i")
  case None
  with assms have "\<forall>h<length (parts s).
      \<not> (\<not> part_disposed (parts s ! h) \<and> part_rec (parts s ! h) = i)"
    unfolding wf_timelines_def by force
  then show ?thesis using None
    by (simp add: live_parts_def filter_upt_none)
next
  case (Some h)
  with assms have "h < length (parts s)"
    and "\<forall>x<length (parts s).
      (\<not> part_disposed (parts s ! x) \<and> part_rec (parts s ! x) = i) \<longleftrightarrow> x = h"
    unfolding wf_timelines_def by force+
  then show ?thesis using Some
    by (simp add: live_parts_def filter_upt_single)
qed

lemma play_when_active:
  "map_of (activeRecordingLoops s) (rec_id rec) = Some h \<Longrightarrow>
     playBackRecording s secs rec =
       s\<lparr>parts := dispose_part h (parts s),
         activeRecordingLoops := AList.delete (rec_id rec) (activeRecordingLoops s)\<rparr>"
  by (simp add: playBackRecording_def)

lemma play_when_idle:
  "map_of (activeRecordingLoops s) (rec_id rec) = None \<Longrightarrow>
     map_of (activeRecordingLoops (playBackRecording s secs rec)) (rec_id rec)
       = Some (length (parts s))
     \<and> length (parts (playBackRecording s secs rec)) = Suc (length (parts s))"
  by (simp add: playBackRecording_def Let_def AList.update_conv')

lemma play_active_after:
  "map_of (activeRecordingLoops s) (rec_id rec) = Some h \<Longrightarrow>
     map_of (activeRecordingLoops (playBackRecording s secs rec)) (rec_id rec) = None
     \<and> parts (playBackRecording s secs rec) = dispose_part h (parts s)
     \<and> scheduled (playBackRecording s secs rec) = scheduled s"
  by (simp add: playBackRecording_def AList.delete_conv')

text \<open>
  C2. Play is a toggle, and there is never more than one timeline per take: in every
  reachable state each take id has at most one part that is not disposed. If a part is
  registered for the id of the take, \<open>playBackRecording\<close> disposes it, removes it and
  creates no new part. From a state where the take is not playing, one call starts a
  part, a second call leaves no live part for the take, and a third starts a new one.
\<close>

theorem play_is_toggle:
  assumes "reachable s"
  shows "length (live_parts s i) \<le> 1
    \<and> (\<forall>h. map_of (activeRecordingLoops s) (rec_id rec) = Some h \<longrightarrow>
          live_parts s (rec_id rec) = [h]
          \<and> h < length (parts s)
          \<and> part_disposed (parts (playBackRecording s secs rec) ! h)
          \<and> map_of (activeRecordingLoops (playBackRecording s secs rec)) (rec_id rec) = None
          \<and> live_parts (playBackRecording s secs rec) (rec_id rec) = []
          \<and> length (parts (playBackRecording s secs rec)) = length (parts s))
    \<and> (map_of (activeRecordingLoops s) (rec_id rec) = None \<longrightarrow>
          live_parts s (rec_id rec) = []
          \<and> live_parts (playBackRecording s secs rec) (rec_id rec) = [length (parts s)]
          \<and> live_parts (playBackRecording (playBackRecording s secs rec) secs2 rec) (rec_id rec)
              = []
          \<and> live_parts (playBackRecording (playBackRecording (playBackRecording s secs rec)
                secs2 rec) secs3 rec) (rec_id rec) = [Suc (length (parts s))])"
proof (intro conjI allI impI)
  let ?i = "rec_id rec"
  let ?s1 = "playBackRecording s secs rec"
  let ?s2 = "playBackRecording ?s1 secs2 rec"
  let ?s3 = "playBackRecording ?s2 secs3 rec"
  from assms have wf: "wf_timelines s" by (rule reachable_wf)
  have wf1: "wf_timelines ?s1" and wf2: "wf_timelines ?s2" and wf3: "wf_timelines ?s3"
    using wf by (simp_all add: wf_play)
  show "length (live_parts s i) \<le> 1"
    by (simp add: live_parts_wf [OF wf] split: option.splits)
  {
    fix h assume act: "map_of (activeRecordingLoops s) ?i = Some h"
    from wf act show h: "h < length (parts s)"
      unfolding wf_timelines_def by blast
    show "live_parts s ?i = [h]"
      by (simp add: live_parts_wf [OF wf] act)
    show "part_disposed (parts ?s1 ! h)"
      using play_active_after [OF act] h by (simp add: nth_dispose_part)
    show none1: "map_of (activeRecordingLoops ?s1) ?i = None"
      using play_active_after [OF act] by simp
    show "live_parts ?s1 ?i = []"
      by (simp add: live_parts_wf [OF wf1] none1)
    show "length (parts ?s1) = length (parts s)"
      using play_active_after [OF act] by simp
  }
  {
    assume idle: "map_of (activeRecordingLoops s) ?i = None"
    show "live_parts s ?i = []"
      by (simp add: live_parts_wf [OF wf] idle)
    from play_when_idle [OF idle]
    have a1: "map_of (activeRecordingLoops ?s1) ?i = Some (length (parts s))"
      and l1: "length (parts ?s1) = Suc (length (parts s))" by simp_all
    show "live_parts ?s1 ?i = [length (parts s)]"
      by (simp add: live_parts_wf [OF wf1] a1)
    from play_active_after [OF a1]
    have n2: "map_of (activeRecordingLoops ?s2) ?i = None"
      and l2: "length (parts ?s2) = Suc (length (parts s))" using l1 by simp_all
    show "live_parts ?s2 ?i = []"
      by (simp add: live_parts_wf [OF wf2] n2)
    from play_when_idle [OF n2] l2
    have a3: "map_of (activeRecordingLoops ?s3) ?i = Some (Suc (length (parts s)))" by simp
    show "live_parts ?s3 ?i = [Suc (length (parts s))]"
      by (simp add: live_parts_wf [OF wf3] a3)
  }
qed

theorem play_is_toggle_witness:
  "live_parts drumkit0 7 = []
   \<and> live_parts (playBackRecording drumkit0 0
        \<lparr>rec_id = 7, rec_name = ''Take 1'', rec_events = [], rec_duration = 500\<rparr>) 7 = [0]
   \<and> live_parts (playBackRecording (playBackRecording drumkit0 0
        \<lparr>rec_id = 7, rec_name = ''Take 1'', rec_events = [], rec_duration = 500\<rparr>) 1
        \<lparr>rec_id = 7, rec_name = ''Take 1'', rec_events = [], rec_duration = 500\<rparr>) 7 = []
   \<and> live_parts (playBackRecording (playBackRecording (playBackRecording drumkit0 0
        \<lparr>rec_id = 7, rec_name = ''Take 1'', rec_events = [], rec_duration = 500\<rparr>) 1
        \<lparr>rec_id = 7, rec_name = ''Take 1'', rec_events = [], rec_duration = 500\<rparr>) 2
        \<lparr>rec_id = 7, rec_name = ''Take 1'', rec_events = [], rec_duration = 500\<rparr>) 7 = [1]
   \<and> map_of (activeRecordingLoops (playBackRecording drumkit0 0
        \<lparr>rec_id = 7, rec_name = ''Take 1'', rec_events = [], rec_duration = 500\<rparr>)) 7 = Some 0
   \<and> part_disposed (parts (playBackRecording (playBackRecording drumkit0 0
        \<lparr>rec_id = 7, rec_name = ''Take 1'', rec_events = [], rec_duration = 500\<rparr>) 1
        \<lparr>rec_id = 7, rec_name = ''Take 1'', rec_events = [], rec_duration = 500\<rparr>) ! 0)"
proof -
  let ?r = "\<lparr>rec_id = 7, rec_name = ''Take 1'', rec_events = [], rec_duration = 500\<rparr>"
  let ?s1 = "playBackRecording drumkit0 0 ?r"
  let ?s2 = "playBackRecording ?s1 1 ?r"
  let ?s3 = "playBackRecording ?s2 2 ?r"
  have idle: "map_of (activeRecordingLoops drumkit0) (rec_id ?r) = None"
    by (simp add: drumkit0_def)
  have act: "map_of (activeRecordingLoops ?s1) (rec_id ?r) = Some 0"
    by (simp add: drumkit0_def playBackRecording_def Let_def)
  have len: "length (parts drumkit0) = 0"
    by (simp add: drumkit0_def)
  have a: "live_parts drumkit0 (rec_id ?r) = []
      \<and> live_parts ?s1 (rec_id ?r) = [length (parts drumkit0)]
      \<and> live_parts ?s2 (rec_id ?r) = []
      \<and> live_parts ?s3 (rec_id ?r) = [Suc (length (parts drumkit0))]"
    by (rule play_is_toggle [of drumkit0 7 ?r 0 1 2, OF r_init, THEN conjunct2, THEN conjunct2,
          THEN mp, OF idle])
  have b: "part_disposed (parts ?s2 ! 0)"
    using play_is_toggle [of ?s1 7 ?r 1 1 2, OF r_play [OF r_init], THEN conjunct2,
          THEN conjunct1, THEN spec, THEN mp, OF act]
    by simp
  show ?thesis
    using a b act len by simp
qed

text \<open>
  C7. Started for a take that is not playing, \<open>playBackRecording\<close> registers exactly one
  cleanup callback, at the anchor plus the duration of the take (the duration, kept in
  milliseconds, converted to the seconds of the clock). In whatever state the callback
  runs: if the part this call created is still the one registered for the take, the
  callback disposes that part and removes the registration, and leaves every other part
  and every other registration as they were (in a reachable state the take then has no
  live part left); if another part, or none, is registered for the take, it changes
  nothing. So when playback has been stopped and started again before the callback fires,
  the newer part stays registered and untouched.
\<close>

theorem cleanup_guard:
  assumes "map_of (activeRecordingLoops s) (rec_id rec) = None"
  shows "(let c = \<lparr>cl_time = secs + 1 / 10 + real_of_int (rec_duration rec) / 1000,
                   cl_rec = rec_id rec, cl_part = length (parts s)\<rparr>;
              s1 = playBackRecording s secs rec;
              s3 = playBackRecording (playBackRecording s1 secs2 rec) secs3 rec
          in scheduled s1 = scheduled s @ [c]
           \<and> map_of (activeRecordingLoops s1) (rec_id rec) = Some (length (parts s))
           \<and> map_of (activeRecordingLoops (cleanup_callback s1 c)) (rec_id rec) = None
           \<and> part_disposed (parts (cleanup_callback s1 c) ! length (parts s))
           \<and> (\<forall>t. map_of (activeRecordingLoops t) (rec_id rec) = Some (length (parts s))
                  \<longrightarrow> cleanup_callback t c =
                        t\<lparr>parts := dispose_part (length (parts s)) (parts t),
                          activeRecordingLoops :=
                            AList.delete (rec_id rec) (activeRecordingLoops t)\<rparr>
                      \<and> map_of (activeRecordingLoops (cleanup_callback t c)) (rec_id rec) = None
                      \<and> (\<forall>j. j \<noteq> rec_id rec \<longrightarrow>
                            map_of (activeRecordingLoops (cleanup_callback t c)) j
                              = map_of (activeRecordingLoops t) j)
                      \<and> length (parts (cleanup_callback t c)) = length (parts t)
                      \<and> (\<forall>k<length (parts t).
                            parts (cleanup_callback t c) ! k =
                              (if k = length (parts s)
                               then (parts t ! k)\<lparr>part_disposed := True\<rparr>
                               else parts t ! k)))
           \<and> (\<forall>t. reachable t
                  \<and> map_of (activeRecordingLoops t) (rec_id rec) = Some (length (parts s))
                  \<longrightarrow> live_parts t (rec_id rec) = [length (parts s)]
                      \<and> live_parts (cleanup_callback t c) (rec_id rec) = [])
           \<and> (\<forall>t. map_of (activeRecordingLoops t) (rec_id rec) \<noteq> Some (length (parts s))
                  \<longrightarrow> cleanup_callback t c = t)
           \<and> map_of (activeRecordingLoops s3) (rec_id rec) = Some (Suc (length (parts s)))
           \<and> fire_cleanup s3 c = s3\<lparr>scheduled := remove1 c (scheduled s3)\<rparr>)"
proof -
  let ?i = "rec_id rec"
  let ?c = "\<lparr>cl_time = secs + 1 / 10 + real_of_int (rec_duration rec) / 1000,
             cl_rec = ?i, cl_part = length (parts s)\<rparr>"
  let ?s1 = "playBackRecording s secs rec"
  let ?s2 = "playBackRecording ?s1 secs2 rec"
  let ?s3 = "playBackRecording ?s2 secs3 rec"
  have sch: "scheduled ?s1 = scheduled s @ [?c]"
    using assms by (simp add: playBackRecording_def Let_def)
  from play_when_idle [OF assms]
  have a1: "map_of (activeRecordingLoops ?s1) ?i = Some (length (parts s))"
    and l1: "length (parts ?s1) = Suc (length (parts s))" by simp_all
  have c1: "map_of (activeRecordingLoops (cleanup_callback ?s1 ?c)) ?i = None"
    using a1 by (simp add: cleanup_callback_def AList.delete_conv')
  have d1: "part_disposed (parts (cleanup_callback ?s1 ?c) ! length (parts s))"
    using a1 l1 by (simp add: cleanup_callback_def nth_dispose_part)
  have other: "cleanup_callback t ?c = t"
    if "map_of (activeRecordingLoops t) ?i \<noteq> Some (length (parts s))" for t
    using that by (simp add: cleanup_callback_def)
  have same: "cleanup_callback t ?c =
        t\<lparr>parts := dispose_part (length (parts s)) (parts t),
          activeRecordingLoops := AList.delete ?i (activeRecordingLoops t)\<rparr>
      \<and> map_of (activeRecordingLoops (cleanup_callback t ?c)) ?i = None
      \<and> (\<forall>j. j \<noteq> ?i \<longrightarrow>
            map_of (activeRecordingLoops (cleanup_callback t ?c)) j
              = map_of (activeRecordingLoops t) j)
      \<and> length (parts (cleanup_callback t ?c)) = length (parts t)
      \<and> (\<forall>k<length (parts t).
            parts (cleanup_callback t ?c) ! k =
              (if k = length (parts s) then (parts t ! k)\<lparr>part_disposed := True\<rparr>
               else parts t ! k))"
    if "map_of (activeRecordingLoops t) ?i = Some (length (parts s))" for t
    using that by (simp add: cleanup_callback_def AList.delete_conv' nth_dispose_part)
  have live: "live_parts t ?i = [length (parts s)] \<and> live_parts (cleanup_callback t ?c) ?i = []"
    if "reachable t \<and> map_of (activeRecordingLoops t) ?i = Some (length (parts s))" for t
  proof -
    from that have wf: "wf_timelines t" by (simp add: reachable_wf)
    then have wf': "wf_timelines (cleanup_callback t ?c)" by (rule wf_cleanup)
    from that have "map_of (activeRecordingLoops (cleanup_callback t ?c)) ?i = None"
      by (simp add: cleanup_callback_def AList.delete_conv')
    with that show ?thesis
      by (simp add: live_parts_wf [OF wf] live_parts_wf [OF wf'])
  qed
  from play_active_after [OF a1]
  have n2: "map_of (activeRecordingLoops ?s2) ?i = None"
    and l2: "length (parts ?s2) = Suc (length (parts s))" using l1 by simp_all
  from play_when_idle [OF n2] l2
  have a3: "map_of (activeRecordingLoops ?s3) ?i = Some (Suc (length (parts s)))" by simp
  have f3: "fire_cleanup ?s3 ?c = ?s3\<lparr>scheduled := remove1 ?c (scheduled ?s3)\<rparr>"
    using a3 by (simp add: fire_cleanup_def cleanup_callback_def)
  show ?thesis
    unfolding Let_def using sch a1 c1 d1 same live other a3 f3 by blast
qed

theorem cleanup_guard_witness:
  "map_of (activeRecordingLoops drumkit0) 7 = None
   \<and> scheduled (playBackRecording drumkit0 2
        \<lparr>rec_id = 7, rec_name = ''Take 1'', rec_events = [], rec_duration = 500\<rparr>)
      = [\<lparr>cl_time = 26 / 10, cl_rec = 7, cl_part = 0\<rparr>]
   \<and> map_of (activeRecordingLoops (cleanup_callback (playBackRecording drumkit0 2
        \<lparr>rec_id = 7, rec_name = ''Take 1'', rec_events = [], rec_duration = 500\<rparr>)
        \<lparr>cl_time = 26 / 10, cl_rec = 7, cl_part = 0\<rparr>)) 7 = None
   \<and> map_of (activeRecordingLoops (playBackRecording (playBackRecording drumkit0 2
        \<lparr>rec_id = 7, rec_name = ''Take 1'', rec_events = [], rec_duration = 500\<rparr>) 3
        \<lparr>rec_id = 8, rec_name = ''Take 2'', rec_events = [], rec_duration = 900\<rparr>)) 7 = Some 0
   \<and> map_of (activeRecordingLoops (cleanup_callback (playBackRecording (playBackRecording
        drumkit0 2
        \<lparr>rec_id = 7, rec_name = ''Take 1'', rec_events = [], rec_duration = 500\<rparr>) 3
        \<lparr>rec_id = 8, rec_name = ''Take 2'', rec_events = [], rec_duration = 900\<rparr>)
        \<lparr>cl_time = 26 / 10, cl_rec = 7, cl_part = 0\<rparr>)) 7 = None
   \<and> map_of (activeRecordingLoops (cleanup_callback (playBackRecording (playBackRecording
        drumkit0 2
        \<lparr>rec_id = 7, rec_name = ''Take 1'', rec_events = [], rec_duration = 500\<rparr>) 3
        \<lparr>rec_id = 8, rec_name = ''Take 2'', rec_events = [], rec_duration = 900\<rparr>)
        \<lparr>cl_time = 26 / 10, cl_rec = 7, cl_part = 0\<rparr>)) 8 = Some 1
   \<and> part_disposed (parts (cleanup_callback (playBackRecording (playBackRecording
        drumkit0 2
        \<lparr>rec_id = 7, rec_name = ''Take 1'', rec_events = [], rec_duration = 500\<rparr>) 3
        \<lparr>rec_id = 8, rec_name = ''Take 2'', rec_events = [], rec_duration = 900\<rparr>)
        \<lparr>cl_time = 26 / 10, cl_rec = 7, cl_part = 0\<rparr>) ! 0)
   \<and> live_parts (cleanup_callback (playBackRecording (playBackRecording
        drumkit0 2
        \<lparr>rec_id = 7, rec_name = ''Take 1'', rec_events = [], rec_duration = 500\<rparr>) 3
        \<lparr>rec_id = 8, rec_name = ''Take 2'', rec_events = [], rec_duration = 900\<rparr>)
        \<lparr>cl_time = 26 / 10, cl_rec = 7, cl_part = 0\<rparr>) 7 = []
   \<and> map_of (activeRecordingLoops (fire_cleanup
        (playBackRecording (playBackRecording (playBackRecording drumkit0 2
          \<lparr>rec_id = 7, rec_name = ''Take 1'', rec_events = [], rec_duration = 500\<rparr>) 3
          \<lparr>rec_id = 7, rec_name = ''Take 1'', rec_events = [], rec_duration = 500\<rparr>) 4
          \<lparr>rec_id = 7, rec_name = ''Take 1'', rec_events = [], rec_duration = 500\<rparr>)
        \<lparr>cl_time = 26 / 10, cl_rec = 7, cl_part = 0\<rparr>)) 7 = Some 1"
proof -
  let ?r = "\<lparr>rec_id = 7, rec_name = ''Take 1'', rec_events = [], rec_duration = 500\<rparr>"
  let ?r8 = "\<lparr>rec_id = 8, rec_name = ''Take 2'', rec_events = [], rec_duration = 900\<rparr>"
  let ?c = "\<lparr>cl_time = 2 + 1 / 10 + real_of_int (rec_duration ?r) / 1000, cl_rec = rec_id ?r,
             cl_part = length (parts drumkit0)\<rparr>"
  let ?s1 = "playBackRecording drumkit0 2 ?r"
  let ?s3 = "playBackRecording (playBackRecording ?s1 3 ?r) 4 ?r"
  let ?t = "playBackRecording ?s1 3 ?r8"
  have idle: "map_of (activeRecordingLoops drumkit0) (rec_id ?r) = None"
    by (simp add: drumkit0_def)
  have len: "length (parts drumkit0) = 0" "scheduled drumkit0 = []"
    by (simp_all add: drumkit0_def)
  have reg: "map_of (activeRecordingLoops ?t) (rec_id ?r) = Some (length (parts drumkit0))"
    and reg8: "map_of (activeRecordingLoops ?t) 8 = Some 1"
    and lent: "length (parts ?t) = 2"
    by (simp_all add: drumkit0_def playBackRecording_def Let_def)
  have reach: "reachable ?t"
    by (intro r_play r_init)
  note g = cleanup_guard [of drumkit0 ?r 2 3 4, OF idle, unfolded Let_def]
  have a: "scheduled ?s1 = scheduled drumkit0 @ [?c]"
    and b: "map_of (activeRecordingLoops (cleanup_callback ?s1 ?c)) (rec_id ?r) = None"
    using g by blast+
  have same: "map_of (activeRecordingLoops (cleanup_callback ?t ?c)) (rec_id ?r) = None
      \<and> (\<forall>j. j \<noteq> rec_id ?r \<longrightarrow>
            map_of (activeRecordingLoops (cleanup_callback ?t ?c)) j
              = map_of (activeRecordingLoops ?t) j)
      \<and> (\<forall>k<length (parts ?t).
            parts (cleanup_callback ?t ?c) ! k =
              (if k = length (parts drumkit0) then (parts ?t ! k)\<lparr>part_disposed := True\<rparr>
               else parts ?t ! k))"
    using g [THEN conjunct2, THEN conjunct2, THEN conjunct2, THEN conjunct2, THEN conjunct1,
        THEN spec, of ?t] reg
    by blast
  have d: "part_disposed (parts (cleanup_callback ?t ?c) ! 0)"
    using same lent len by simp
  have e: "map_of (activeRecordingLoops (cleanup_callback ?t ?c)) 8 = Some 1"
    using same reg8 by simp
  have live: "live_parts (cleanup_callback ?t ?c) (rec_id ?r) = []"
    using g [THEN conjunct2, THEN conjunct2, THEN conjunct2, THEN conjunct2, THEN conjunct2,
        THEN conjunct1, THEN spec, of ?t] reg reach
    by blast
  have f: "map_of (activeRecordingLoops (fire_cleanup ?s3 ?c)) (rec_id ?r)
      = Some (Suc (length (parts drumkit0)))"
    using g by simp
  show ?thesis
    using idle a b reg same d e live f len by simp
qed

subsection \<open>The tick of the sequencer\<close>

lemma triggerSound_initialized:
  "isInitialized e \<Longrightarrow> \<exists>as. triggerSound e tnow ty velocity params = Inr as"
  by (cases ty) (simp_all add: kitPlay_def whenSynth_def triggerCustom_def Let_def split: option.splits)

lemma tick_rows_initialized:
  assumes "isInitialized e"
  shows "i + length rs \<le> length g \<Longrightarrow>
    tick_rows e tnow g step i rs =
      (map (\<lambda>(k, row). \<lparr>c_type = row_instrument row, c_velocity = 8 / 10,
                          c_params = no_params\<lparr>p_pitch := row_pitch row\<rparr>\<rparr>)
         (filter (\<lambda>(k, row). cell g k step) (enumerate i rs)), None)"
proof (induction rs arbitrary: i)
  case Nil
  then show ?case by simp
next
  case (Cons row rest)
  then have i: "\<not> length g \<le> i" and "Suc i + length rest \<le> length g" by simp_all
  with Cons.IH have ih: "tick_rows e tnow g step (Suc i) rest =
      (map (\<lambda>(k, row). \<lparr>c_type = row_instrument row, c_velocity = 8 / 10,
                          c_params = no_params\<lparr>p_pitch := row_pitch row\<rparr>\<rparr>)
         (filter (\<lambda>(k, row). cell g k step) (enumerate (Suc i) rest)), None)"
    by simp
  obtain as where "perform e tnow \<lparr>c_type = row_instrument row, c_velocity = 8 / 10,
      c_params = no_params\<lparr>p_pitch := row_pitch row\<rparr>\<rparr> = Inr as"
    using triggerSound_initialized [OF assms] unfolding perform_def by blast
  with i ih show ?case by (simp add: Let_def)
qed

text \<open>
  With the audio engine initialised and a row of the grid for every row of the sequencer,
  a tick at step \<open>s\<close> calls \<open>triggerSound\<close> exactly once for each row whose cell at \<open>s\<close>
  is active, in the order of the rows, with the instrument and the pitch of the row and
  the velocity 0.8, and for no other row; nothing is thrown. No call carries a time.
\<close>

lemma sequence_tick_calls:
  assumes "isInitialized e" and "length (rows q) \<le> length (grid q)"
  shows "sequence_tick e tnow q time step =
    (q\<lparr>currentStep := step\<rparr>,
     map (\<lambda>(k, row). \<lparr>c_type = row_instrument row, c_velocity = 8 / 10,
            c_params = \<lparr>p_pitch = row_pitch row, p_volume = None, p_pan = None,
                        p_triggerNote = None, p_time = None\<rparr>\<rparr>)
       (filter (\<lambda>(k, row). cell (grid q) k step) (enumerate 0 (rows q))),
     None)"
  using tick_rows_initialized [OF assms(1), of 0 "rows q" "grid q" tnow step] assms(2)
  by (simp add: sequence_tick_def no_params_def)

lemma sequence_tick_calls_example:
  "isInitialized (initAudio engine0)
   \<and> sequence_tick (initAudio engine0) 0
        \<lparr>rows = [\<lparr>row_id = ''kick'', row_name = ''Kick'', row_instrument = kick,
                   row_key = ''kick'', row_pitch = None\<rparr>,
                 \<lparr>row_id = ''tom_h'', row_name = ''Tom H'', row_instrument = tom,
                   row_key = ''tom'', row_pitch = Some 3\<rparr>,
                 \<lparr>row_id = ''snare'', row_name = ''Snare'', row_instrument = snare,
                   row_key = ''snare'', row_pitch = None\<rparr>],
         grid = [[True, False], [True, True], [False, True]], currentStep = 1\<rparr> (3 / 2) 0
     = (\<lparr>rows = [\<lparr>row_id = ''kick'', row_name = ''Kick'', row_instrument = kick,
                   row_key = ''kick'', row_pitch = None\<rparr>,
                 \<lparr>row_id = ''tom_h'', row_name = ''Tom H'', row_instrument = tom,
                   row_key = ''tom'', row_pitch = Some 3\<rparr>,
                 \<lparr>row_id = ''snare'', row_name = ''Snare'', row_instrument = snare,
                   row_key = ''snare'', row_pitch = None\<rparr>],
         grid = [[True, False], [True, True], [False, True]], currentStep = 0\<rparr>,
        [\<lparr>c_type = kick, c_velocity = 8 / 10,
          c_params = \<lparr>p_pitch = None, p_volume = None, p_pan = None, p_triggerNote = None,
                      p_time = None\<rparr>\<rparr>,
         \<lparr>c_type = tom, c_velocity = 8 / 10,
          c_params = \<lparr>p_pitch = Some 3, p_volume = None, p_pan = None, p_triggerNote = None,
                      p_time = None\<rparr>\<rparr>],
        None)"
proof -
  let ?q = "\<lparr>rows = [\<lparr>row_id = ''kick'', row_name = ''Kick'', row_instrument = kick,
                   row_key = ''kick'', row_pitch = None\<rparr>,
                 \<lparr>row_id = ''tom_h'', row_name = ''Tom H'', row_instrument = tom,
                   row_key = ''tom'', row_pitch = Some 3\<rparr>,
                 \<lparr>row_id = ''snare'', row_name = ''Snare'', row_instrument = snare,
                   row_key = ''snare'', row_pitch = None\<rparr>],
         grid = [[True, False], [True, True], [False, True]], currentStep = 1\<rparr>"
  have i: "isInitialized (initAudio engine0)"
    by (simp add: initAudio_def engine0_def)
  have l: "length (rows ?q) \<le> length (grid ?q)" by simp
  show ?thesis
    using sequence_tick_calls [OF i l, of 0 "3 / 2" 0] i
    by (simp add: cell_def enumerate_eq_zip)
qed

text \<open>
  C3. The claim says that each call of a tick carries the time of the tick as its scheduled
  time. The callback \<open>(_time, step) => ...\<close> does not pass the time it is given on to
  \<open>triggerSound\<close>, as the callback of a playing take does (\<open>time: time\<close>): at the tick of
  time 1.5, the call for the kick row is made with no time, so the sound is scheduled for
  when the callback happens to run. And while the audio engine is not yet initialised, a
  tick with the kick and the snare rows active calls \<open>triggerSound\<close> for the kick, which
  throws a TypeError, and the snare row is never reached.
\<close>

theorem sequence_tick_drops_time:
  "map (\<lambda>c. (c_type c, p_time (c_params c)))
     (fst (snd (sequence_tick (initAudio engine0) 0
        \<lparr>rows = [\<lparr>row_id = ''kick'', row_name = ''Kick'', row_instrument = kick,
                   row_key = ''kick'', row_pitch = None\<rparr>],
         grid = [[True, False, False, False]], currentStep = 0\<rparr> (3 / 2) 0)))
   = [(kick, None)]
   \<and> snd (sequence_tick engine0 0
        \<lparr>rows = [\<lparr>row_id = ''kick'', row_name = ''Kick'', row_instrument = kick,
                   row_key = ''kick'', row_pitch = None\<rparr>,
                 \<lparr>row_id = ''snare'', row_name = ''Snare'', row_instrument = snare,
                   row_key = ''snare'', row_pitch = None\<rparr>],
         grid = [[True, False], [True, False]], currentStep = 0\<rparr> (3 / 2) 0)
     = ([\<lparr>c_type = kick, c_velocity = 8 / 10,
          c_params = \<lparr>p_pitch = None, p_volume = None, p_pan = None, p_triggerNote = None,
                      p_time = None\<rparr>\<rparr>],
        Some TypeError)"
  by (simp add: sequence_tick_def cell_def perform_def kitPlay_def initAudio_def engine0_def
      no_params_def)

subsection \<open>Striking a pad without a usable sound\<close>




subsection \<open>Loading custom samples\<close>

text \<open>
  A call of \<open>loadUserSample\<close> that nothing interrupts leaves at most one registry entry
  for the pad, and the player the pad had before is disposed.
\<close>

lemma loadUserSample_sequential:
  "registry_entries (loadUserSample e key url r) key \<le> 1
   \<and> (\<forall>h. customPlayers e key = Some h \<longrightarrow> h < length (players e) \<longrightarrow>
         pl_disposed (players (loadUserSample e key url r) ! h))"
proof -
  have rel: "customPlayers (release_prior e key) key = None"
    "customMidi (release_prior e key) key = None"
    "length (players (release_prior e key)) = length (players e)"
    by (simp_all add: release_prior_def dispose_player_def Let_def split: option.splits)
  have disp: "pl_disposed (players (release_prior e key) ! h)"
    if "customPlayers e key = Some h" "h < length (players e)" for h
    using that by (simp add: release_prior_def dispose_player_def Let_def)
  show ?thesis
  proof (cases "loadUserSample_begin e key url")
    case (Pair e1 w)
    show ?thesis
    proof (cases w)
      case None
      with Pair rel disp show ?thesis
        by (auto simp: loadUserSample_def loadUserSample_begin_def Let_def registry_entries_def
            split: if_splits)
    next
      case (Some a)
      with Pair rel disp show ?thesis
        by (cases a; cases r)
          (auto simp: loadUserSample_def loadUserSample_begin_def Let_def registry_entries_def
            nth_append split: if_splits)
    qed
  qed
qed

text \<open>
  C5. Two calls for pad 40 that overlap, as happens when a second sound is picked while the
  first is still loading (the component never awaits \<open>loadUserSample\<close>): both calls
  release the prior entry before either has stored anything. With two audio files, the
  second player replaces the first in the registry and the first is never disposed, so two
  players are live for the pad. With a pattern and an audio file, the pad ends with two
  registry entries. The same two audio loads one after the other leave one live player.
\<close>

theorem overlapping_loads_leak:
  "customPlayers (overlapping_loads (initAudio engine0) 40 ''a.wav'' ResolvedAudio
      ''b.wav'' ResolvedAudio) 40 = Some 1
   \<and> live_players (overlapping_loads (initAudio engine0) 40 ''a.wav'' ResolvedAudio
      ''b.wav'' ResolvedAudio) = [0, 1]
   \<and> registry_entries (overlapping_loads (initAudio engine0) 40 ''a.mid'' (ResolvedMidi [])
      ''b.wav'' ResolvedAudio) 40 = 2
   \<and> live_players (loadUserSample (loadUserSample (initAudio engine0) 40 ''a.wav''
      ResolvedAudio) 40 ''b.wav'' ResolvedAudio) = [1]"
  by (simp add: overlapping_loads_def loadUserSample_def loadUserSample_begin_def
      release_prior_def ext_wav Let_def initAudio_def engine0_def live_players_def
      registry_entries_def dispose_player_def upt_rec nth_append)

subsection \<open>Playing back a take\<close>

text \<open>
  When every note of the take has a mapping and the take is not already playing,
  playback dispatches the recorded pairs of note and velocity, in the recorded order, each
  at the anchor (the reading of the clock plus 0.1) plus the timestamp divided by 1000.
\<close>

lemma map_filter_all_Some:
  "(\<And>x. x \<in> set xs \<Longrightarrow> f x = Some (g x)) \<Longrightarrow> List.map_filter f xs = map g xs"
  by (induction xs) simp_all

lemma sorted_seconds:
  "sorted (map ev_timestamp evs) \<Longrightarrow>
     sorted (map (\<lambda>evt. real_of_int (ev_timestamp evt) / 1000) evs)"
  by (induction evs) (auto simp: divide_right_mono)

lemma play_calls_mapped:
  assumes idle: "map_of (activeRecordingLoops s) (rec_id rec) = None"
    and sorted: "sorted (map ev_timestamp (rec_events rec))"
    and mapped: "\<And>evt. evt \<in> set (rec_events rec) \<Longrightarrow> mappings s (ev_note evt) \<noteq> None"
  shows "map (\<lambda>c. (p_triggerNote (c_params c), c_velocity c, p_time (c_params c)))
           (play_calls s secs rec)
       = map (\<lambda>evt. (Some (ev_note evt), ev_velocity evt,
                      Some (secs + 1 / 10 + real_of_int (ev_timestamp evt) / 1000)))
           (rec_events rec)"
proof -
  let ?f = "\<lambda>evt. \<lparr>pe_time = real_of_int (ev_timestamp evt) / 1000, pe_note = ev_note evt,
                     pe_velocity = ev_velocity evt\<rparr>"
  let ?p = "\<lparr>part_rec = rec_id rec, part_events = map ?f (rec_events rec),
             part_start = secs + 1 / 10, part_disposed = False\<rparr>"
  let ?g = "\<lambda>value. \<lparr>c_type = m_instrument (the (mappings s (pe_note value))),
                c_velocity = pe_velocity value,
                c_params = \<lparr>p_pitch = Some (m_pitch (the (mappings s (pe_note value)))),
                   p_volume = m_volume (the (mappings s (pe_note value))),
                   p_pan = m_pan (the (mappings s (pe_note value))),
                   p_triggerNote = Some (pe_note value),
                   p_time = Some (secs + 1 / 10 + pe_time value)\<rparr>\<rparr>"
  have calls: "play_calls s secs rec = part_calls (mappings s) ?p"
    using idle by (simp add: play_calls_def playBackRecording_def Let_def AList.update_conv')
  have "sorted (map pe_time (map ?f (rec_events rec)))"
    using sorted_seconds [OF sorted] by (simp add: comp_def)
  then have order: "sort_key pe_time (map ?f (rec_events rec)) = map ?f (rec_events rec)"
    by (rule sort_key_id_if_sorted)
  have "part_callback (mappings s) (secs + 1 / 10 + pe_time value) value = Some (?g value)"
    if "value \<in> set (map ?f (rec_events rec))" for "value"
  proof -
    from that obtain evt where evt: "evt \<in> set (rec_events rec)" "value = ?f evt" by auto
    with mapped [of evt] obtain m where "mappings s (ev_note evt) = Some m" by auto
    with evt show ?thesis by (simp add: part_callback_def)
  qed
  then have "List.map_filter (\<lambda>value. part_callback (mappings s) (secs + 1 / 10 + pe_time value) value)
      (map ?f (rec_events rec)) = map ?g (map ?f (rec_events rec))"
    by (rule map_filter_all_Some)
  with calls order show ?thesis
    by (simp add: part_calls_def comp_def)
qed

text \<open>
  C1. The session recorded under the default mapping yields the take of the two events;
  while recording, each of the two strokes called the fallback (the listener's branch for
  a note with no mapping). Playing the take starts a part, and the part dispatches
  nothing: its callback has no branch for a note with no mapping.
\<close>

theorem playback_unmapped:
  "recordings session_recorded = [session_take]
   \<and> map (\<lambda>c. (c_type c, c_velocity c))
       [snd (listener (toggleRecording drumkit0 1000 1000) 1000 ''e1'' 60 (8 / 10)),
        snd (listener (fst (listener (toggleRecording drumkit0 1000 1000)
                               1000 ''e1'' 60 (8 / 10))) 1250 ''e2'' 62 (5 / 10))]
     = [(cowbell, 8 / 10), (cowbell, 5 / 10)]
   \<and> live_parts (playBackRecording session_recorded 0 session_take) 1601 = [0]
   \<and> play_calls session_recorded 0 session_take = []"
  by (simp add: session_recorded_def session_take_def toggleRecording_def listener_def
      drumkit0_def Let_def digits_1 play_calls_def playBackRecording_def part_calls_def
      part_callback_def live_parts_def)

end
